theory Spec2Isabelle
  imports Main "HOL-Library.Word" "HOL-Library.Sublist" "HOL-Library.Code_Target_Nat"
begin

unbundle bit_operations_syntax

section \<open>Errors\<close>

text \<open>
  Go errors as values. \<open>EOF\<close> and \<open>ErrUnexpectedEOF\<close> are the sentinels of package io,
  \<open>ErrSyntax\<close> and \<open>ErrRange\<close> those of package strconv, \<open>ErrorString\<close> is an error made
  by \<open>errors.New\<close> or \<open>fmt.Errorf\<close> from a text, and \<open>Wrapped p e\<close> is
  \<open>fmt.Errorf(p + "%v", e)\<close>.
\<close>

datatype error =
    EOF
  | ErrUnexpectedEOF
  | ErrSyntax
  | ErrRange
  | ErrorString string
  | Wrapped string error

section \<open>Frame codec (internal/proto/proto.go)\<close>

type_synonym byte = "8 word"
type_synonym FrameType = byte

definition FrameTypeNEW_CONN :: FrameType where "FrameTypeNEW_CONN = 0x01"
definition FrameTypeDATA :: FrameType where "FrameTypeDATA = 0x02"
definition FrameTypeCLOSE :: FrameType where "FrameTypeCLOSE = 0x03"
definition FrameTypeINIT :: FrameType where "FrameTypeINIT = 0x04"

text \<open>
  \<open>type Frame struct { Type FrameType; ConnID uint32; Payload []byte }\<close>.
  The payload is the byte sequence of the slice; the program reads a payload only through
  \<open>len\<close>, \<open>copy\<close> and \<open>Write\<close>, which do not tell a nil slice from an empty one, so
  both are the empty list.
\<close>

record Frame =
  Type :: FrameType
  ConnID :: "32 word"
  Payload :: "byte list"

text \<open>\<open>make([]byte, n)\<close>: n zero bytes.\<close>

definition make_bytes :: "nat \<Rightarrow> byte list" where
  "make_bytes n = replicate n 0"

text \<open>\<open>b[lo:hi]\<close> read as a value.\<close>

definition slice :: "nat \<Rightarrow> nat \<Rightarrow> 'a list \<Rightarrow> 'a list" where
  "slice lo hi xs = take (hi - lo) (drop lo xs)"

text \<open>
  \<open>binary.BigEndian.PutUint32(buf[off:off+4], v)\<close>: the sub-slice shares the buffer, so
  the four stores land in \<open>buf\<close> at \<open>off .. off+3\<close>:
  \<open>b[0] = byte(v >> 24); b[1] = byte(v >> 16); b[2] = byte(v >> 8); b[3] = byte(v)\<close>.
\<close>

definition PutUint32 :: "byte list \<Rightarrow> nat \<Rightarrow> 32 word \<Rightarrow> byte list" where
  "PutUint32 buf off v =
     buf[off := ucast (drop_bit 24 v),
         off + 1 := ucast (drop_bit 16 v),
         off + 2 := ucast (drop_bit 8 v),
         off + 3 := ucast v]"

text \<open>
  \<open>binary.BigEndian.Uint32(b)\<close>:
  \<open>uint32(b[3]) | uint32(b[2])<<8 | uint32(b[1])<<16 | uint32(b[0])<<24\<close>.
\<close>

definition Uint32 :: "byte list \<Rightarrow> 32 word" where
  "Uint32 b = ucast (b ! 3) OR push_bit 8 (ucast (b ! 2)) OR push_bit 16 (ucast (b ! 1))
                OR push_bit 24 (ucast (b ! 0))"

text \<open>
  \<open>copy(dst[off:], src)\<close>: copies \<open>min(len(dst) - off, len(src))\<close> bytes into the shared
  buffer, starting at \<open>off\<close>.
\<close>

definition copy_at :: "byte list \<Rightarrow> nat \<Rightarrow> byte list \<Rightarrow> byte list" where
  "copy_at dst off src =
     (let n = min (length dst - off) (length src)
      in take off dst @ take n src @ drop (off + n) dst)"

text \<open>
  \<open>EncodeFrame(f *Frame) ([]byte, error)\<close>; a nil pointer is \<open>None\<close>.
  \<open>uint32(payloadLen)\<close> keeps the low 32 bits of the length.
\<close>

definition EncodeFrame :: "Frame option \<Rightarrow> error + byte list" where
  "EncodeFrame fo =
     (case fo of
        None \<Rightarrow> Inl ErrUnexpectedEOF
      | Some f \<Rightarrow>
          (let payloadLen = length (Payload f);
               totalLen = 1 + 4 + 4 + payloadLen;
               buf = make_bytes totalLen;
               offset = 0;
               buf = buf[offset := Type f];
               offset = offset + 1;
               buf = PutUint32 buf offset (ConnID f);
               offset = offset + 4;
               buf = PutUint32 buf offset (of_nat payloadLen);
               offset = offset + 4;
               buf = (if payloadLen > 0 then copy_at buf offset (Payload f) else buf)
           in Inr buf))"

text \<open>
  A reader is the sequence of bytes it will still deliver before end of stream.
  \<open>io.ReadFull(r, buf)\<close> with \<open>len(buf) = n\<close> returns the next n bytes and the reader
  advanced past them; when the stream ends first it fails with \<open>EOF\<close> if no byte was
  read and with \<open>ErrUnexpectedEOF\<close> otherwise.
\<close>

type_synonym Reader = "byte list"

definition ReadFull :: "Reader \<Rightarrow> nat \<Rightarrow> error + (byte list \<times> Reader)" where
  "ReadFull r n =
     (if n \<le> length r then Inr (take n r, drop n r)
      else if r = [] then Inl EOF
      else Inl ErrUnexpectedEOF)"

text \<open>\<open>DecodeFrame(r io.Reader) (*Frame, error)\<close>, returning the reader left over as well.\<close>

definition DecodeFrame :: "Reader \<Rightarrow> error + (Frame \<times> Reader)" where
  "DecodeFrame r =
     (case ReadFull r 9 of
        Inl err \<Rightarrow> Inl err
      | Inr (header, r1) \<Rightarrow>
          (let frameType = header ! 0;
               connID = Uint32 (slice 1 5 header);
               payloadLen = Uint32 (slice 5 9 header)
           in if payloadLen > 0 then
                (case ReadFull r1 (unat payloadLen) of
                   Inl err \<Rightarrow> Inl err
                 | Inr (payload, r2) \<Rightarrow>
                     Inr (\<lparr>Type = frameType, ConnID = connID, Payload = payload\<rparr>, r2))
              else Inr (\<lparr>Type = frameType, ConnID = connID, Payload = []\<rparr>, r1)))"

text \<open>The number a byte sequence denotes when read most significant byte first.\<close>

definition be_value :: "byte list \<Rightarrow> nat" where
  "be_value bs = foldl (\<lambda>a b. a * 256 + unat b) 0 bs"

text \<open>The four bytes \<open>PutUint32\<close> stores for a value.\<close>

definition be32 :: "32 word \<Rightarrow> byte list" where
  "be32 v = [ucast (drop_bit 24 v), ucast (drop_bit 16 v), ucast (drop_bit 8 v), ucast v]"

section \<open>INIT configuration codec (internal/proto/proto.go)\<close>

text \<open>
  \<open>type InitConfig struct { RemotePort int; LocalAddr string }\<close>. The programs are built
  for amd64, where Go's \<open>int\<close> has 64 bits; its value is read with \<open>sint\<close>.
  A Go string is its sequence of bytes.
\<close>

record InitConfig =
  RemotePort :: "64 word"
  LocalAddr :: string

text \<open>The decimal digits of a natural number, without leading zeros.\<close>

function digits10 :: "nat \<Rightarrow> string" where
  "digits10 n = (if n < 10 then [char_of (48 + n)]
                 else digits10 (n div 10) @ [char_of (48 + n mod 10)])"
  by pat_completeness auto
termination
  by (relation "measure id") auto

declare digits10.simps [simp del]

text \<open>The verb \<open>%d\<close> of \<open>fmt.Sprintf\<close> on an \<open>int\<close>: a minus sign for a negative value, then the digits.\<close>

definition FormatInt :: "int \<Rightarrow> string" where
  "FormatInt i = (if i < 0 then CHR ''-'' # digits10 (nat (- i)) else digits10 (nat i))"

text \<open>\<open>[]byte(fmt.Sprintf("%d:%s", config.RemotePort, config.LocalAddr))\<close>\<close>

definition EncodeInitConfig :: "InitConfig \<Rightarrow> string" where
  "EncodeInitConfig config = FormatInt (sint (RemotePort config)) @ '':'' @ LocalAddr config"

text \<open>
  \<open>strings.SplitN(s, ":", 2)\<close>: the text before the first colon and the text after it, or
  the whole text alone when it has no colon.
\<close>

definition SplitN2 :: "string \<Rightarrow> string list" where
  "SplitN2 s =
     (if CHR '':'' \<in> set s
      then [takeWhile (\<lambda>c. c \<noteq> CHR '':'') s, tl (dropWhile (\<lambda>c. c \<noteq> CHR '':'') s)]
      else [s])"

definition is_digit :: "char \<Rightarrow> bool" where
  "is_digit c \<longleftrightarrow> (48::nat) \<le> of_char c \<and> of_char c \<le> (57::nat)"

definition digit_val :: "char \<Rightarrow> nat" where
  "digit_val c = of_char c - 48"

text \<open>
  The digit loop of \<open>strconv.ParseUint(s, 10, 64)\<close>: a byte that is no decimal digit is a
  syntax error, a value that leaves 64 bits is a range error, reported at the digit where
  it happens.
\<close>

fun parse_digits :: "string \<Rightarrow> nat \<Rightarrow> error + nat" where
  "parse_digits [] n = Inr n"
| "parse_digits (c # cs) n =
     (if \<not> is_digit c then Inl ErrSyntax
      else if 2 ^ 64 \<le> n * 10 + digit_val c then Inl ErrRange
      else parse_digits cs (n * 10 + digit_val c))"

text \<open>
  \<open>strconv.Atoi(s)\<close> with a 64-bit \<open>int\<close>: an optional sign, at least one digit, only
  digits, and a value from \<open>-2^63\<close> to \<open>2^63 - 1\<close>. (Its short-input fast path and
  \<open>ParseInt(s, 10, 0)\<close> give the same results.)
\<close>

definition Atoi :: "string \<Rightarrow> error + 64 word" where
  "Atoi s =
     (if s = [] then Inl ErrSyntax
      else
        let neg = (hd s = CHR ''-'');
            ds = (if hd s = CHR ''-'' \<or> hd s = CHR ''+'' then tl s else s)
        in if ds = [] then Inl ErrSyntax
           else (case parse_digits ds 0 of
                   Inl err \<Rightarrow> Inl err
                 | Inr un \<Rightarrow>
                     if \<not> neg \<and> 2 ^ 63 \<le> un then Inl ErrRange
                     else if neg \<and> 2 ^ 63 < un then Inl ErrRange
                     else Inr (if neg then - of_nat un else of_nat un)))"

text \<open>\<open>DecodeInitConfig(data []byte) (*InitConfig, error)\<close>\<close>

definition DecodeInitConfig :: "string \<Rightarrow> error + InitConfig" where
  "DecodeInitConfig data =
     (let parts = SplitN2 data
      in if length parts \<noteq> 2 then Inl (ErrorString ''invalid init config format'')
         else (case Atoi (parts ! 0) of
                 Inl err \<Rightarrow> Inl (Wrapped ''invalid remote port: '' err)
               | Inr remotePort \<Rightarrow>
                   Inr \<lparr>RemotePort = remotePort, LocalAddr = parts ! 1\<rparr>))"

text \<open>
  What the specification calls a decimal integer: an optional sign followed by one or more
  decimal digits, and the number it denotes.
\<close>

definition unsigned_value :: "string \<Rightarrow> nat" where
  "unsigned_value ds = foldl (\<lambda>a c. a * 10 + digit_val c) 0 ds"

definition is_decimal_integer :: "string \<Rightarrow> bool" where
  "is_decimal_integer s \<longleftrightarrow>
     (case s of
        [] \<Rightarrow> False
      | c # cs \<Rightarrow>
          if c = CHR ''-'' \<or> c = CHR ''+'' then cs \<noteq> [] \<and> list_all is_digit cs
          else list_all is_digit s)"

definition decimal_value :: "string \<Rightarrow> int" where
  "decimal_value s =
     (case s of
        [] \<Rightarrow> 0
      | c # cs \<Rightarrow>
          if c = CHR ''-'' then - int (unsigned_value cs)
          else if c = CHR ''+'' then int (unsigned_value cs)
          else int (unsigned_value s))"

text \<open>The text before the first colon of an input.\<close>

definition before_colon :: "string \<Rightarrow> string" where
  "before_colon s = takeWhile (\<lambda>c. c \<noteq> CHR '':'') s"

section \<open>PQC transport (internal/pqctls/pqc_tls_openssl.go)\<close>

text \<open>The error codes of \<open>SSL_get_error\<close>, as the file's preamble defines them.\<close>

definition SSL_ERROR_NONE :: int where "SSL_ERROR_NONE = 0"
definition SSL_ERROR_SSL :: int where "SSL_ERROR_SSL = 1"
definition SSL_ERROR_WANT_READ :: int where "SSL_ERROR_WANT_READ = 2"
definition SSL_ERROR_WANT_WRITE :: int where "SSL_ERROR_WANT_WRITE = 3"
definition SSL_ERROR_WANT_X509_LOOKUP :: int where "SSL_ERROR_WANT_X509_LOOKUP = 4"
definition SSL_ERROR_SYSCALL :: int where "SSL_ERROR_SYSCALL = 5"
definition SSL_ERROR_ZERO_RETURN :: int where "SSL_ERROR_ZERO_RETURN = 6"
definition SSL_ERROR_WANT_CONNECT :: int where "SSL_ERROR_WANT_CONNECT = 7"
definition SSL_ERROR_WANT_ACCEPT :: int where "SSL_ERROR_WANT_ACCEPT = 8"

text \<open>
  What the program reads from an \<open>SSL\<close> object after a handshake:
  \<open>SSL_get_negotiated_group\<close> and \<open>SSL_get0_group_name\<close> (\<open>None\<close> for \<open>NULL\<close>).
\<close>

record SSL =
  negotiated_group :: int
  group_name :: "string option"



text \<open>
  \<open>type PQCConn struct { conn net.Conn; ssl *C.SSL; ctx *C.SSL_CTX; mu sync.Mutex }\<close>.
  A connection and a context are named by a number; \<open>ssl\<close> is \<open>None\<close> for a nil pointer.
\<close>

record PQCConn =
  conn :: nat
  ssl :: "SSL option"
  ctx :: nat












text \<open>
  \<open>PQCConn.Read\<close> and \<open>PQCConn.Write\<close> on a buffer of \<open>len_b\<close> bytes. Each makes one call
  of \<open>SSL_read\<close> or \<open>SSL_write\<close>; \<open>n\<close> is what that call returns and \<open>code\<close> what
  \<open>SSL_get_error\<close> gives for it. The result is the pair \<open>(n, err)\<close> of the Go method,
  \<open>None\<close> for a nil error.
\<close>

definition PQCConn_Read :: "PQCConn \<Rightarrow> nat \<Rightarrow> int \<Rightarrow> int \<Rightarrow> int \<times> error option" where
  "PQCConn_Read c len_b n code =
     (if ssl c = None then (0, Some (ErrorString ''SSL connection not established''))
      else if len_b = 0 then (0, None)
      else if n \<le> 0 then
        (if code = SSL_ERROR_ZERO_RETURN then (0, Some EOF)
         else if code = SSL_ERROR_WANT_READ \<or> code = SSL_ERROR_WANT_WRITE then (0, None)
         else (0, Some (ErrorString (''SSL read error: '' @ FormatInt code))))
      else (n, None))"

definition PQCConn_Write :: "PQCConn \<Rightarrow> nat \<Rightarrow> int \<Rightarrow> int \<Rightarrow> int \<times> error option" where
  "PQCConn_Write c len_b n code =
     (if ssl c = None then (0, Some (ErrorString ''SSL connection not established''))
      else if len_b = 0 then (0, None)
      else if n \<le> 0 then
        (if code = SSL_ERROR_ZERO_RETURN then (0, Some EOF)
         else if code = SSL_ERROR_WANT_READ \<or> code = SSL_ERROR_WANT_WRITE then (0, None)
         else (0, Some (ErrorString (''SSL write error: '' @ FormatInt code))))
      else (n, None))"



section \<open>Tunnel engines (internal/tunnel)\<close>

text \<open>
  A \<open>net.Conn\<close> is named by a number. What a handler does to the world outside its own
  variables is the sequence of its effects, in program order: a \<open>Write\<close> of bytes on a
  control connection, a \<open>Read\<close> from, a \<open>Write\<close> to or a \<open>Close\<close> of a data socket, a store into or a
  removal from a stream map, a \<open>net.DialTimeout("tcp", addr, t)\<close> with t in seconds, and
  the \<open>go\<close> statement that starts the forwarding task of a stream.
\<close>

type_synonym NetConn = nat

datatype event =
    CtlWrite NetConn "byte list"
  | SockRead NetConn
  | SockClose NetConn
  | MapStore "32 word" NetConn
  | MapDelete "32 word"
  | SockWrite NetConn "byte list"
  | DialTimeout string nat
  | GoForward "32 word" NetConn

text \<open>\<open>atomic.AddUint32(&v, delta)\<close>: the new value, which wraps at \<open>2^32\<close>.\<close>

definition AddUint32 :: "32 word \<Rightarrow> 32 word \<Rightarrow> 32 word" where
  "AddUint32 v delta = v + delta"

text \<open>\<open>err.Error()\<close>\<close>

fun Error :: "error \<Rightarrow> string" where
  "Error EOF = ''EOF''"
| "Error ErrUnexpectedEOF = ''unexpected EOF''"
| "Error ErrSyntax = ''invalid syntax''"
| "Error ErrRange = ''value out of range''"
| "Error (ErrorString s) = s"
| "Error (Wrapped p e) = p @ Error e"

text \<open>
  The CLOSE frame that every \<open>sendCloseFrame\<close> writes when it has a control connection
  (\<open>None\<close>: the connection is nil, or the client is not registered, and nothing is
  written). A failed write is only logged.
\<close>

definition write_close :: "NetConn option \<Rightarrow> 32 word \<Rightarrow> event list" where
  "write_close controlConn connID =
     (case controlConn of
        None \<Rightarrow> []
      | Some c \<Rightarrow>
          (case EncodeFrame (Some \<lparr>Type = FrameTypeCLOSE, ConnID = connID, Payload = []\<rparr>) of
             Inl err \<Rightarrow> []
           | Inr frameData \<Rightarrow> [CtlWrite c frameData]))"

subsection \<open>The server with many clients\<close>

text \<open>
  \<open>type ClientInfo struct\<close>, and of \<open>type Server struct\<close> the registry and the client
  counter, the two fields the functions below use.
\<close>

record ClientInfo =
  ID :: string
  Conn :: NetConn
  ConnMap :: "32 word \<rightharpoonup> NetConn"
  NextConnID :: "32 word"
  ClientLocalAddr :: string
  ClientRemotePort :: "64 word"
  PublicListener :: "nat option"

record Server =
  clients :: "string \<rightharpoonup> ClientInfo"
  nextClientID :: "32 word"

text \<open>\<open>NewServer\<close>: no client, counter zero.\<close>

definition NewServer :: Server where
  "NewServer = \<lparr>clients = Map.empty, nextClientID = 0\<rparr>"

text \<open>\<open>func (s *Server) registerClient(conn net.Conn) string\<close>\<close>

definition registerClient :: "Server \<Rightarrow> NetConn \<Rightarrow> string \<times> Server" where
  "registerClient s c =
     (let n = AddUint32 (nextClientID s) 1;
          clientID = ''client-'' @ digits10 (unat n);
          clientInfo = \<lparr>ID = clientID, Conn = c, ConnMap = Map.empty, NextConnID = 0,
                        ClientLocalAddr = [], ClientRemotePort = 0, PublicListener = None\<rparr>
      in (clientID, s\<lparr>nextClientID := n, clients := (clients s)(clientID \<mapsto> clientInfo)\<rparr>))"

text \<open>
  \<open>func (s *Server) handlePublicConnection(ctx, publicConn, clientID)\<close> up to its
  \<open>go\<close> statement; \<open>write_ok\<close> says whether the write of NEW_CONN on the control
  connection succeeds.
\<close>

definition Server_handlePublicConnection ::
  "Server \<Rightarrow> NetConn \<Rightarrow> string \<Rightarrow> bool \<Rightarrow> Server \<times> event list" where
  "Server_handlePublicConnection s publicConn clientID write_ok =
     (case clients s clientID of
        None \<Rightarrow> (s, [SockClose publicConn])
      | Some clientInfo \<Rightarrow>
          (let connID = AddUint32 (NextConnID clientInfo) 1;
               clientInfo = clientInfo\<lparr>NextConnID := connID\<rparr>;
               s = s\<lparr>clients := (clients s)(clientID \<mapsto> clientInfo)\<rparr>;
               frame = \<lparr>Type = FrameTypeNEW_CONN, ConnID = connID, Payload = []\<rparr>
           in (case EncodeFrame (Some frame) of
                 Inl err \<Rightarrow> (s, [SockClose publicConn])
               | Inr frameData \<Rightarrow>
                   if \<not> write_ok
                   then (s, [CtlWrite (Conn clientInfo) frameData, SockClose publicConn])
                   else
                     (s\<lparr>clients := (clients s)(clientID \<mapsto>
                          clientInfo\<lparr>ConnMap := (ConnMap clientInfo)(connID \<mapsto> publicConn)\<rparr>)\<rparr>,
                      [CtlWrite (Conn clientInfo) frameData,
                       MapStore connID publicConn,
                       GoForward connID publicConn]))))"

text \<open>\<open>func (s *Server) handleCloseFrame(clientID string, frame *proto.Frame)\<close>\<close>

definition Server_handleCloseFrame :: "Server \<Rightarrow> string \<Rightarrow> Frame \<Rightarrow> Server \<times> event list" where
  "Server_handleCloseFrame s clientID frame =
     (case clients s clientID of
        None \<Rightarrow> (s, [])
      | Some clientInfo \<Rightarrow>
          (case ConnMap clientInfo (ConnID frame) of
             None \<Rightarrow> (s, [])
           | Some publicConn \<Rightarrow>
               (s\<lparr>clients := (clients s)(clientID \<mapsto>
                    clientInfo\<lparr>ConnMap := (ConnMap clientInfo)(ConnID frame := None)\<rparr>)\<rparr>,
                [MapDelete (ConnID frame), SockClose publicConn])))"

text \<open>\<open>func (s *Server) sendCloseFrame(clientID string, connID uint32)\<close>\<close>

definition Server_sendCloseFrame :: "Server \<Rightarrow> string \<Rightarrow> 32 word \<Rightarrow> event list" where
  "Server_sendCloseFrame s clientID connID =
     write_close (map_option Conn (clients s clientID)) connID"

text \<open>
  One turn of the forwarding task's loop meets the rest of the program, which runs beside
  it, through what it observes: whether the context is done, whether the stream is still in
  the map before the read, what \<open>publicConn.Read\<close> returns (an error, or the bytes read),
  whether the stream is still in the map after the read, whether the write of the DATA
  frame succeeds, the registry as \<open>sendCloseFrame\<close> finds it, and whether the stream is
  still in the map when the task leaves.
\<close>

record turn =
  ctxDone :: bool
  inMapBefore :: bool
  readResult :: "error + byte list"
  inMapAfter :: bool
  writeOk :: bool
  registry :: Server
  inMapAtExit :: bool

text \<open>The deferred function of the forwarding task.\<close>

definition Server_forward_exit :: "32 word \<Rightarrow> NetConn \<Rightarrow> turn \<Rightarrow> event list" where
  "Server_forward_exit connID publicConn t =
     (if inMapAtExit t then [SockClose publicConn, MapDelete connID] else [])"

text \<open>
  The forwarding task that \<open>handlePublicConnection\<close> starts, as the effects of its turns.
  The task runs as long as the stream lives: the list holds the turns observed so far.
\<close>

fun Server_forward :: "string \<Rightarrow> NetConn \<Rightarrow> 32 word \<Rightarrow> NetConn \<Rightarrow> turn list \<Rightarrow> event list" where
  "Server_forward clientID ctl connID publicConn [] = []"
| "Server_forward clientID ctl connID publicConn (t # ts) =
     (if ctxDone t then Server_forward_exit connID publicConn t
      else if \<not> inMapBefore t then Server_forward_exit connID publicConn t
      else SockRead publicConn #
        (case readResult t of
           Inl err \<Rightarrow>
             (if err \<noteq> EOF then
                (if sublist ''use of closed network connection'' (Error err) then []
                 else Server_sendCloseFrame (registry t) clientID connID)
              else Server_sendCloseFrame (registry t) clientID connID)
             @ Server_forward_exit connID publicConn t
         | Inr data \<Rightarrow>
             if length data > 0 then
               (if \<not> inMapAfter t then Server_forward_exit connID publicConn t
                else
                  (case EncodeFrame (Some \<lparr>Type = FrameTypeDATA, ConnID = connID, Payload = data\<rparr>) of
                     Inl err \<Rightarrow> Server_forward_exit connID publicConn t
                   | Inr frameData \<Rightarrow>
                       CtlWrite ctl frameData #
                         (if \<not> writeOk t then Server_forward_exit connID publicConn t
                          else Server_forward clientID ctl connID publicConn ts)))
             else Server_forward clientID ctl connID publicConn ts))"

subsection \<open>The server with one client\<close>

text \<open>
  The second \<open>type Server struct\<close> of the sources: one control connection (\<open>None\<close> for
  nil), one stream map, one counter.
\<close>

record Server1 =
  s1_controlConn :: "NetConn option"
  s1_connMap :: "32 word \<rightharpoonup> NetConn"
  s1_nextConnID :: "32 word"

text \<open>\<open>func (s *Server) handlePublicConnection(ctx, publicConn)\<close> up to its \<open>go\<close> statement.\<close>

definition Server1_handlePublicConnection ::
  "Server1 \<Rightarrow> NetConn \<Rightarrow> bool \<Rightarrow> Server1 \<times> event list" where
  "Server1_handlePublicConnection s publicConn write_ok =
     (let connID = AddUint32 (s1_nextConnID s) 1;
          s = s\<lparr>s1_nextConnID := connID\<rparr>;
          s = s\<lparr>s1_connMap := (s1_connMap s)(connID \<mapsto> publicConn)\<rparr>;
          stored = [MapStore connID publicConn];
          undo = [SockClose publicConn, MapDelete connID];
          s_undone = s\<lparr>s1_connMap := (s1_connMap s)(connID := None)\<rparr>
      in (case s1_controlConn s of
            None \<Rightarrow> (s_undone, stored @ undo)
          | Some controlConn \<Rightarrow>
              (case EncodeFrame (Some \<lparr>Type = FrameTypeNEW_CONN, ConnID = connID, Payload = []\<rparr>) of
                 Inl err \<Rightarrow> (s_undone, stored @ undo)
               | Inr frameData \<Rightarrow>
                   if \<not> write_ok
                   then (s_undone, stored @ [CtlWrite controlConn frameData] @ undo)
                   else (s, stored @ [CtlWrite controlConn frameData, GoForward connID publicConn]))))"

text \<open>
  Its forwarding task. A turn observes the context, the read, the control connection as
  the task finds it and the write.
\<close>

record turn1 =
  ctxDone1 :: bool
  readResult1 :: "error + byte list"
  controlNow :: "NetConn option"
  writeOk1 :: bool

fun Server1_forward :: "32 word \<Rightarrow> NetConn \<Rightarrow> turn1 list \<Rightarrow> event list" where
  "Server1_forward connID publicConn [] = []"
| "Server1_forward connID publicConn (t # ts) =
     (if ctxDone1 t then [SockClose publicConn, MapDelete connID]
      else SockRead publicConn #
        (case readResult1 t of
           Inl err \<Rightarrow> write_close (controlNow t) connID @ [SockClose publicConn, MapDelete connID]
         | Inr data \<Rightarrow>
             if length data > 0 then
               (case EncodeFrame (Some \<lparr>Type = FrameTypeDATA, ConnID = connID, Payload = data\<rparr>) of
                  Inl err \<Rightarrow> [SockClose publicConn, MapDelete connID]
                | Inr frameData \<Rightarrow>
                    (case controlNow t of
                       None \<Rightarrow> [SockClose publicConn, MapDelete connID]
                     | Some ctrlConn \<Rightarrow>
                         CtlWrite ctrlConn frameData #
                           (if \<not> writeOk1 t then [SockClose publicConn, MapDelete connID]
                            else Server1_forward connID publicConn ts)))
             else Server1_forward connID publicConn ts))"

subsection \<open>The client\<close>

text \<open>Of \<open>type Client struct\<close>, the fields the frame handlers use.\<close>

record Client =
  localAddr :: string
  controlConn :: "NetConn option"
  connMap :: "32 word \<rightharpoonup> NetConn"

text \<open>\<open>func (c *Client) sendCloseFrame(connID uint32)\<close>\<close>

definition Client_sendCloseFrame :: "Client \<Rightarrow> 32 word \<Rightarrow> event list" where
  "Client_sendCloseFrame c connID = write_close (controlConn c) connID"

text \<open>
  \<open>func (c *Client) handleNewConn(ctx, frame) error\<close>; \<open>dial\<close> is what
  \<open>net.DialTimeout("tcp", c.localAddr, 5*time.Second)\<close> returns. The result is the new
  client, the effects and the error returned (\<open>None\<close> for nil).
\<close>

definition Client_handleNewConn ::
  "Client \<Rightarrow> Frame \<Rightarrow> error + NetConn \<Rightarrow> Client \<times> event list \<times> error option" where
  "Client_handleNewConn c frame dial =
     (case dial of
        Inl err \<Rightarrow>
          (c, DialTimeout (localAddr c) 5 # Client_sendCloseFrame c (ConnID frame), Some err)
      | Inr localConn \<Rightarrow>
          (c\<lparr>connMap := (connMap c)(ConnID frame \<mapsto> localConn)\<rparr>,
           [DialTimeout (localAddr c) 5,
            MapStore (ConnID frame) localConn,
            GoForward (ConnID frame) localConn],
           None))"

text \<open>\<open>func (c *Client) handleCloseFrame(frame *proto.Frame) error\<close>\<close>

definition Client_handleCloseFrame :: "Client \<Rightarrow> Frame \<Rightarrow> Client \<times> event list \<times> error option" where
  "Client_handleCloseFrame c frame =
     (case connMap c (ConnID frame) of
        None \<Rightarrow> (c, [], None)
      | Some localConn \<Rightarrow>
          (let c' = c\<lparr>connMap := (connMap c)(ConnID frame := None)\<rparr>
           in (c',
               [MapDelete (ConnID frame), SockClose localConn]
                 @ Client_sendCloseFrame c' (ConnID frame),
               None)))"

text \<open>
  \<open>func (c *Client) handleDataFrame(frame *proto.Frame) error\<close>; \<open>wr\<close> is the error of
  \<open>localConn.Write\<close> (\<open>None\<close> for nil).
\<close>

definition Client_handleDataFrame ::
  "Client \<Rightarrow> Frame \<Rightarrow> error option \<Rightarrow> Client \<times> event list \<times> error option" where
  "Client_handleDataFrame c frame wr =
     (case connMap c (ConnID frame) of
        None \<Rightarrow> (c, [], None)
      | Some localConn \<Rightarrow>
          if length (Payload frame) > 0 then
            (case wr of
               None \<Rightarrow> (c, [SockWrite localConn (Payload frame)], None)
             | Some err \<Rightarrow>
                 (let c' = c\<lparr>connMap := (connMap c)(ConnID frame := None)\<rparr>
                  in (c',
                      [SockWrite localConn (Payload frame), SockClose localConn,
                       MapDelete (ConnID frame)] @ Client_sendCloseFrame c' (ConnID frame),
                      Some err)))
          else (c, [], None))"

text \<open>\<open>func (c *Client) handleFrame(ctx, frame) error\<close>\<close>

definition Client_handleFrame ::
  "Client \<Rightarrow> Frame \<Rightarrow> error + NetConn \<Rightarrow> error option \<Rightarrow> Client \<times> event list \<times> error option" where
  "Client_handleFrame c frame dial wr =
     (if Type frame = FrameTypeNEW_CONN then Client_handleNewConn c frame dial
      else if Type frame = FrameTypeDATA then Client_handleDataFrame c frame wr
      else if Type frame = FrameTypeCLOSE then Client_handleCloseFrame c frame
      else (c, [], None))"

subsection \<open>Runs and traces\<close>

text \<open>
  What happens to one registered client of the server: an external socket is accepted for
  it (with the outcome of the NEW_CONN write), or a CLOSE frame for a stream arrives from it.
\<close>

datatype server_op = PublicConn NetConn bool | CloseFrame "32 word"

fun Server_run :: "Server \<Rightarrow> string \<Rightarrow> server_op list \<Rightarrow> Server \<times> event list" where
  "Server_run s clientID [] = (s, [])"
| "Server_run s clientID (PublicConn publicConn write_ok # ops) =
     (let (s1, e1) = Server_handlePublicConnection s publicConn clientID write_ok;
          (s2, e2) = Server_run s1 clientID ops
      in (s2, e1 @ e2))"
| "Server_run s clientID (CloseFrame connID # ops) =
     (let (s1, e1) = Server_handleCloseFrame s clientID
                        \<lparr>Type = FrameTypeCLOSE, ConnID = connID, Payload = []\<rparr>;
          (s2, e2) = Server_run s1 clientID ops
      in (s2, e1 @ e2))"

fun is_PublicConn :: "server_op \<Rightarrow> bool" where
  "is_PublicConn (PublicConn c ok) = True"
| "is_PublicConn (CloseFrame connID) = False"

text \<open>The stream ids announced on the wire: those of the NEW_CONN frames written, in order.\<close>

fun new_conn_ids :: "event list \<Rightarrow> 32 word list" where
  "new_conn_ids [] = []"
| "new_conn_ids (CtlWrite c bs # es) =
     (case DecodeFrame bs of
        Inr (f, r) \<Rightarrow>
          if Type f = FrameTypeNEW_CONN then ConnID f # new_conn_ids es else new_conn_ids es
      | Inl err \<Rightarrow> new_conn_ids es)"
| "new_conn_ids (e # es) = new_conn_ids es"

text \<open>The bytes of a frame on the wire.\<close>

definition frame_bytes :: "FrameType \<Rightarrow> 32 word \<Rightarrow> byte list \<Rightarrow> byte list" where
  "frame_bytes ty connID payload =
     (case EncodeFrame (Some \<lparr>Type = ty, ConnID = connID, Payload = payload\<rparr>) of
        Inl err \<Rightarrow> []
      | Inr bs \<Rightarrow> bs)"

text \<open>A buffer holds a frame of a given type for a given stream.\<close>

definition is_frame :: "FrameType \<Rightarrow> 32 word \<Rightarrow> byte list \<Rightarrow> bool" where
  "is_frame ty connID bs =
     (case DecodeFrame bs of
        Inr (f, r) \<Rightarrow> Type f = ty \<and> ConnID f = connID
      | Inl err \<Rightarrow> False)"

text \<open>An effect is the write of a frame of a given type for a given stream.\<close>

fun is_frame_write :: "FrameType \<Rightarrow> 32 word \<Rightarrow> event \<Rightarrow> bool" where
  "is_frame_write ty connID (CtlWrite c bs) = is_frame ty connID bs"
| "is_frame_write ty connID e = False"

text \<open>
  In a sequence, nothing with property \<open>P\<close> comes before the first occurrence of \<open>a\<close>;
  when \<open>a\<close> does not occur, nothing with property \<open>P\<close> occurs.
\<close>

definition only_after :: "('a \<Rightarrow> bool) \<Rightarrow> 'a \<Rightarrow> 'a list \<Rightarrow> bool" where
  "only_after P a tr \<longleftrightarrow> \<not> list_ex P (takeWhile (\<lambda>e. e \<noteq> a) tr)"

text \<open>
  What a trace puts on the wire of the control connection: the buffers of its \<open>Write\<close>
  calls, in the order of the calls, each one if the connection transmitted it. The list
  says so call by call (a call the list does not reach transmitted nothing).
\<close>

fun on_wire :: "event list \<Rightarrow> bool list \<Rightarrow> byte list list" where
  "on_wire [] ds = []"
| "on_wire (CtlWrite c bs # es) [] = on_wire es []"
| "on_wire (CtlWrite c bs # es) (d # ds) = (if d then bs # on_wire es ds else on_wire es ds)"
| "on_wire (e # es) ds = on_wire es ds"

text \<open>
  What a call \<open>Write(buf)\<close> on the control connection returns is a pair \<open>(n, err)\<close>. The
  handlers look at the error only (\<open>if _, err := conn.Write(frameData); err != nil\<close>);
  the buffer went out whole when \<open>n\<close> is its length.
\<close>

definition returns_nil :: "int \<times> error option \<Rightarrow> bool" where
  "returns_nil r \<longleftrightarrow> snd r = None"

definition wrote_all :: "int \<times> error option \<Rightarrow> byte list \<Rightarrow> bool" where
  "wrote_all r buf \<longleftrightarrow> fst r = int (length buf)"

text \<open>
  The life of one stream on a server: the effects of \<open>handlePublicConnection\<close>, then, when
  its \<open>go\<close> statement was reached, those of the forwarding task it started.
\<close>

definition Server_stream ::
  "Server \<Rightarrow> NetConn \<Rightarrow> string \<Rightarrow> bool \<Rightarrow> turn list \<Rightarrow> event list" where
  "Server_stream s publicConn clientID write_ok turns =
     (case clients s clientID of
        None \<Rightarrow> snd (Server_handlePublicConnection s publicConn clientID write_ok)
      | Some clientInfo \<Rightarrow>
          (let connID = AddUint32 (NextConnID clientInfo) 1;
               evs = snd (Server_handlePublicConnection s publicConn clientID write_ok)
           in if GoForward connID publicConn \<in> set evs
              then evs @ Server_forward clientID (Conn clientInfo) connID publicConn turns
              else evs))"

definition Server1_stream :: "Server1 \<Rightarrow> NetConn \<Rightarrow> bool \<Rightarrow> turn1 list \<Rightarrow> event list" where
  "Server1_stream s publicConn write_ok turns =
     (let connID = AddUint32 (s1_nextConnID s) 1;
          evs = snd (Server1_handlePublicConnection s publicConn write_ok)
      in if GoForward connID publicConn \<in> set evs
         then evs @ Server1_forward connID publicConn turns
         else evs)"

section \<open>Properties of the frame codec\<close>

lemma length_be32 [simp]: "length (be32 v) = 4"
  by (simp add: be32_def)

lemma Uint32_be32: "Uint32 (be32 v) = v"
proof (rule bit_word_eqI)
  fix n assume n: "n < LENGTH(32)"
  consider "n < 8" | "8 \<le> n" "n < 16" | "16 \<le> n" "n < 24" | "24 \<le> n" "n < 32"
    using n by fastforce
  then show "bit (Uint32 (be32 v)) n = bit v n"
    unfolding Uint32_def be32_def by cases (auto simp add: bit_simps)
qed

lemma be32_Uint32_4: "be32 (Uint32 [b0, b1, b2, b3]) = [b0, b1, b2, b3]"
  unfolding Uint32_def be32_def
  apply simp
  apply (intro conjI bit_word_eqI)
     apply (auto simp add: bit_simps dest: bit_imp_le_length)
  done

lemma length_four: "length xs = 4 \<Longrightarrow> \<exists>a b c d. xs = [a, b, c, d]"
  by (auto simp add: length_Suc_conv eval_nat_numeral)

lemma be32_Uint32: "length xs = 4 \<Longrightarrow> be32 (Uint32 xs) = xs"
  using length_four [of xs] be32_Uint32_4 by auto

lemma horner256:
  fixes x :: nat
  assumes "x < 2 ^ 32"
    and "a = x div 2 ^ 24 mod 256" and "b = x div 2 ^ 16 mod 256"
    and "c = x div 2 ^ 8 mod 256" and "d = x mod 256"
  shows "((a * 256 + b) * 256 + c) * 256 + d = x"
proof -
  define q1 where "q1 = x div 256"
  define q2 where "q2 = q1 div 256"
  define q3 where "q3 = q2 div 256"
  have e1: "x div 2 ^ 8 = q1" by (simp add: q1_def)
  have e2: "x div 2 ^ 16 = q2" by (simp add: q1_def q2_def div_mult2_eq)
  have e3: "x div 2 ^ 24 = q3" by (simp add: q1_def q2_def q3_def div_mult2_eq)
  have "q3 < 256" using assms(1) unfolding e3 [symmetric] by simp
  then have m3: "q3 mod 256 = q3" by simp
  have s2: "q3 * 256 + q2 mod 256 = q2" unfolding q3_def by (rule div_mult_mod_eq)
  have s1: "q2 * 256 + q1 mod 256 = q1" unfolding q2_def by (rule div_mult_mod_eq)
  have s0: "q1 * 256 + x mod 256 = x" unfolding q1_def by (rule div_mult_mod_eq)
  show ?thesis unfolding assms(2-5) e1 e2 e3 m3 s2 s1 s0 ..
qed

lemma be_value_be32: "be_value (be32 v) = unat v"
proof -
  have lt: "unat v < 2 ^ 32" using unsigned_less [of v, where 'a = nat] by simp
  have b0: "unat (ucast (drop_bit 24 v) :: byte) = unat v div 2 ^ 24 mod 256"
    by (simp add: unsigned_ucast_eq unat_drop_bit_eq take_bit_eq_mod drop_bit_eq_div unat_div)
  have b1: "unat (ucast (drop_bit 16 v) :: byte) = unat v div 2 ^ 16 mod 256"
    by (simp add: unsigned_ucast_eq unat_drop_bit_eq take_bit_eq_mod drop_bit_eq_div unat_div)
  have b2: "unat (ucast (drop_bit 8 v) :: byte) = unat v div 2 ^ 8 mod 256"
    by (simp add: unsigned_ucast_eq unat_drop_bit_eq take_bit_eq_mod drop_bit_eq_div unat_div)
  have b3: "unat (ucast v :: byte) = unat v mod 256"
    by (simp add: unsigned_ucast_eq take_bit_eq_mod)
  have "be_value (be32 v)
     = ((unat (ucast (drop_bit 24 v) :: byte) * 256 + unat (ucast (drop_bit 16 v) :: byte)) * 256
          + unat (ucast (drop_bit 8 v) :: byte)) * 256 + unat (ucast v :: byte)"
    by (simp add: be_value_def be32_def)
  then show ?thesis unfolding horner256 [OF lt b0 b1 b2 b3] .
qed

text \<open>The buffer \<open>EncodeFrame\<close> builds, written as one sequence.\<close>

lemma PutUint32_replicate:
  "length pre = off \<Longrightarrow> 4 \<le> length post \<Longrightarrow>
   PutUint32 (pre @ post) off v = pre @ be32 v @ drop 4 post"
proof -
  assume pre: "length pre = off" and post: "4 \<le> length post"
  obtain a b c d tl where p: "post = a # b # c # d # tl"
    using post by (cases post; simp; rename_tac x xs; case_tac xs; simp;
                   rename_tac y ys; case_tac ys; simp; rename_tac z zs; case_tac zs; simp)
  show ?thesis
    unfolding PutUint32_def be32_def p using pre
    by (simp add: list_update_append)
qed

lemma EncodeFrame_bytes:
  "EncodeFrame (Some f) =
     Inr (Type f # be32 (ConnID f) @ be32 (of_nat (length (Payload f))) @ Payload f)"
proof -
  let ?n = "length (Payload f)"
  let ?c = "be32 (ConnID f)"
  let ?l = "be32 (of_nat ?n)"
  have "9 + ?n = Suc (8 + ?n)" by simp
  then have "make_bytes (9 + ?n) = (0 :: byte) # replicate (8 + ?n) 0"
    unfolding make_bytes_def by (simp only: replicate_Suc)
  then have s0: "(make_bytes (9 + ?n))[0 := Type f] = Type f # replicate (8 + ?n) 0"
    by simp
  have "PutUint32 ([Type f] @ replicate (8 + ?n) 0) 1 (ConnID f)
          = [Type f] @ ?c @ drop 4 (replicate (8 + ?n) 0)"
    by (rule PutUint32_replicate) simp_all
  then have s1: "PutUint32 (Type f # replicate (8 + ?n) 0) (Suc 0) (ConnID f)
                   = Type f # ?c @ replicate (4 + ?n) 0"
    by simp
  have "PutUint32 ((Type f # ?c) @ replicate (4 + ?n) 0) 5 (of_nat ?n)
          = (Type f # ?c) @ ?l @ drop 4 (replicate (4 + ?n) 0)"
    by (rule PutUint32_replicate) simp_all
  then have s2: "PutUint32 (Type f # ?c @ replicate (4 + ?n) 0) 5 (of_nat ?n)
                   = Type f # ?c @ ?l @ replicate ?n 0"
    by simp
  have s3: "copy_at (Type f # ?c @ ?l @ replicate ?n 0) 9 (Payload f)
              = Type f # ?c @ ?l @ Payload f"
    by (simp add: copy_at_def)
  show ?thesis
  proof (cases "Payload f = []")
    case True
    have "PutUint32 (PutUint32 ((make_bytes 9)[0 := Type f]) (Suc 0) (ConnID f)) 5 0
            = Type f # ?c @ be32 0"
      using s0 s1 s2 by (simp add: True)
    then show ?thesis
      unfolding EncodeFrame_def Let_def by (simp add: True)
  next
    case False
    then show ?thesis
      unfolding EncodeFrame_def Let_def by (simp add: s0 s1 s2 s3)
  qed
qed

text \<open>
  C3. For a frame whose payload is at most \<open>2^32 - 1\<close> bytes long, \<open>EncodeFrame\<close> returns
  one buffer of \<open>9 + len(payload)\<close> bytes: byte 0 is the frame type, bytes 1 to 4 are the
  stream id most significant byte first, bytes 5 to 8 are the payload length most
  significant byte first, and what follows byte 8 is exactly the payload, so the buffer
  holds nothing else (no padding, checksum or version).
\<close>

theorem EncodeFrame_wire_form:
  assumes "length (Payload f) \<le> 2 ^ 32 - 1"
  shows "\<exists>buf. EncodeFrame (Some f) = Inr buf
           \<and> length buf = 9 + length (Payload f)
           \<and> buf ! 0 = Type f
           \<and> be_value (slice 1 5 buf) = unat (ConnID f)
           \<and> be_value (slice 5 9 buf) = length (Payload f)
           \<and> drop 9 buf = Payload f
           \<and> buf = take 9 buf @ Payload f"
proof -
  let ?buf = "Type f # be32 (ConnID f) @ be32 (of_nat (length (Payload f))) @ Payload f"
  have len: "unat (of_nat (length (Payload f)) :: 32 word) = length (Payload f)"
    using assms by (simp add: unat_of_nat take_bit_nat_eq_self)
  have "slice 1 5 ?buf = be32 (ConnID f)"
    by (simp add: slice_def)
  moreover have "slice 5 9 ?buf = be32 (of_nat (length (Payload f)))"
    by (simp add: slice_def)
  ultimately show ?thesis
    by (simp add: EncodeFrame_bytes be_value_be32 len)
qed

theorem EncodeFrame_wire_form_witness:
  "length (Payload \<lparr>Type = 2, ConnID = 7, Payload = [1, 2, 3]\<rparr>) \<le> 2 ^ 32 - 1
   \<and> (\<exists>buf. EncodeFrame (Some \<lparr>Type = 2, ConnID = 7, Payload = [1, 2, 3]\<rparr>) = Inr buf
           \<and> length buf = 9 + length (Payload \<lparr>Type = 2, ConnID = 7, Payload = [1, 2, 3]\<rparr>)
           \<and> buf ! 0 = Type \<lparr>Type = 2, ConnID = 7, Payload = [1, 2, 3]\<rparr>
           \<and> be_value (slice 1 5 buf) = unat (ConnID \<lparr>Type = 2, ConnID = 7, Payload = [1, 2, 3]\<rparr>)
           \<and> be_value (slice 5 9 buf) = length (Payload \<lparr>Type = 2, ConnID = 7, Payload = [1, 2, 3]\<rparr>)
           \<and> drop 9 buf = Payload \<lparr>Type = 2, ConnID = 7, Payload = [1, 2, 3]\<rparr>
           \<and> buf = take 9 buf @ Payload \<lparr>Type = 2, ConnID = 7, Payload = [1, 2, 3]\<rparr>)"
proof -
  have h: "length (Payload \<lparr>Type = 2, ConnID = 7, Payload = [1, 2, 3]\<rparr>) \<le> 2 ^ 32 - 1"
    by simp
  show ?thesis
    using h EncodeFrame_wire_form [OF h] by blast
qed

lemma header_split:
  assumes "length h = 9"
  shows "h = h ! 0 # slice 1 5 h @ slice 5 9 h"
proof -
  obtain a b c d e f g i j where "h = [a, b, c, d, e, f, g, i, j]"
    using assms by (auto simp add: length_Suc_conv eval_nat_numeral)
  then show ?thesis by (simp add: slice_def)
qed

lemma length_slice_header:
  assumes "length h = 9"
  shows "length (slice 1 5 h) = 4" and "length (slice 5 9 h) = 4"
  using assms by (simp_all add: slice_def)

lemma DecodeFrame_EncodeFrame:
  assumes "length (Payload f) \<le> 2 ^ 32 - 1"
  shows "DecodeFrame (Type f # be32 (ConnID f) @ be32 (of_nat (length (Payload f))) @ Payload f @ rest)
           = Inr (f, rest)"
proof -
  let ?n = "length (Payload f)"
  let ?h = "Type f # be32 (ConnID f) @ be32 (of_nat ?n)"
  have len: "unat (of_nat ?n :: 32 word) = ?n"
    using assms by (simp add: unat_of_nat take_bit_nat_eq_self)
  have rf: "ReadFull (?h @ Payload f @ rest) 9 = Inr (?h, Payload f @ rest)"
    by (simp add: ReadFull_def)
  have c: "Uint32 (slice 1 5 ?h) = ConnID f"
    by (simp add: slice_def Uint32_be32)
  have l: "Uint32 (slice 5 9 ?h) = of_nat ?n"
    by (simp add: slice_def Uint32_be32)
  have pos: "(of_nat ?n :: 32 word) > 0 \<longleftrightarrow> Payload f \<noteq> []"
  proof -
    have "?n = 0" if "(of_nat ?n :: 32 word) = 0"
    proof -
      from that have "unat (of_nat ?n :: 32 word) = 0" by simp
      then show ?thesis unfolding len .
    qed
    then have "(of_nat ?n :: 32 word) = 0 \<longleftrightarrow> ?n = 0"
      by auto
    then show ?thesis by (simp add: word_greater_zero_iff)
  qed
  have rp: "ReadFull (Payload f @ rest) ?n = Inr (Payload f, rest)"
    by (simp add: ReadFull_def)
  have "DecodeFrame (?h @ Payload f @ rest) = Inr (f, rest)"
    unfolding DecodeFrame_def rf sum.case prod.case Let_def c l pos len rp
    by simp
  then show ?thesis by simp
qed

lemma DecodeFrame_Inr:
  assumes "DecodeFrame b = Inr (g, rest)"
  shows "9 \<le> length b"
    and "Type g = b ! 0"
    and "ConnID g = Uint32 (slice 1 5 (take 9 b))"
    and "Payload g = take (unat (Uint32 (slice 5 9 (take 9 b)))) (drop 9 b)"
    and "rest = drop (unat (Uint32 (slice 5 9 (take 9 b)))) (drop 9 b)"
    and "unat (Uint32 (slice 5 9 (take 9 b))) \<le> length b - 9"
proof -
  let ?pl = "Uint32 (slice 5 9 (take 9 b))"
  show nine: "9 \<le> length b"
    using assms by (auto simp add: DecodeFrame_def ReadFull_def split: if_splits)
  then have rf: "ReadFull b 9 = Inr (take 9 b, drop 9 b)"
    by (simp add: ReadFull_def)
  show "Type g = b ! 0" "ConnID g = Uint32 (slice 1 5 (take 9 b))"
    using assms unfolding DecodeFrame_def rf
    by (auto simp add: Let_def split: if_splits sum.splits)
  show "Payload g = take (unat ?pl) (drop 9 b)"
    "rest = drop (unat ?pl) (drop 9 b)"
    "unat ?pl \<le> length b - 9"
  proof -
    have "Payload g = take (unat ?pl) (drop 9 b)
       \<and> rest = drop (unat ?pl) (drop 9 b) \<and> unat ?pl \<le> length b - 9"
    proof (cases "?pl = 0")
      case True
      then have "DecodeFrame b = Inr (\<lparr>Type = take 9 b ! 0, ConnID = Uint32 (slice 1 5 (take 9 b)), Payload = []\<rparr>, drop 9 b)"
        unfolding DecodeFrame_def rf by (simp only: Let_def sum.case prod.case less_irrefl if_False)
      with assms have "g = \<lparr>Type = take 9 b ! 0, ConnID = Uint32 (slice 1 5 (take 9 b)), Payload = []\<rparr>"
        and "rest = drop 9 b" by simp_all
      then show ?thesis using True by simp
    next
      case False
      then have pos: "?pl > 0" by (simp add: word_greater_zero_iff)
      have dec: "DecodeFrame b = (case ReadFull (drop 9 b) (unat ?pl) of
                   Inl err \<Rightarrow> Inl err
                 | Inr (payload, r2) \<Rightarrow>
                     Inr (\<lparr>Type = take 9 b ! 0, ConnID = Uint32 (slice 1 5 (take 9 b)), Payload = payload\<rparr>, r2))"
        unfolding DecodeFrame_def rf using pos by (simp only: Let_def sum.case prod.case if_True)
      show ?thesis
      proof (cases "unat ?pl \<le> length (drop 9 b)")
        case True
        then have "ReadFull (drop 9 b) (unat ?pl) = Inr (take (unat ?pl) (drop 9 b), drop (unat ?pl) (drop 9 b))"
          unfolding ReadFull_def by (simp only: if_True)
        with dec assms have "g = \<lparr>Type = take 9 b ! 0, ConnID = Uint32 (slice 1 5 (take 9 b)), Payload = take (unat ?pl) (drop 9 b)\<rparr>"
          and "rest = drop (unat ?pl) (drop 9 b)" by simp_all
        then show ?thesis using True by simp
      next
        case False
        then have "\<exists>e. ReadFull (drop 9 b) (unat ?pl) = Inl e"
          unfolding ReadFull_def by simp
        with dec assms show ?thesis by auto
      qed
    qed
    then show "Payload g = take (unat ?pl) (drop 9 b)"
      "rest = drop (unat ?pl) (drop 9 b)"
      "unat ?pl \<le> length b - 9" by blast+
  qed
qed

lemma EncodeFrame_DecodeFrame:
  assumes "DecodeFrame b = Inr (g, rest)"
  shows "EncodeFrame (Some g) = Inr (take (9 + length (Payload g)) b)"
    and "b = take (9 + length (Payload g)) b @ rest"
proof -
  let ?h = "take 9 b"
  let ?pl = "Uint32 (slice 5 9 ?h)"
  note d = DecodeFrame_Inr [OF assms]
  have lh: "length ?h = 9" using d(1) by simp
  have lp: "length (Payload g) = unat ?pl"
    unfolding d(4) using d(6) by simp
  have h0: "?h ! 0 = b ! 0" by simp
  have hdr: "Type g # be32 (ConnID g) @ be32 (of_nat (length (Payload g))) = ?h"
    unfolding lp d(2) d(3) h0 [symmetric]
    using header_split [OF lh] be32_Uint32 [OF length_slice_header(1) [OF lh]]
      be32_Uint32 [OF length_slice_header(2) [OF lh]]
    by simp
  have "take (9 + unat ?pl) b = ?h @ take (unat ?pl) (drop 9 b)"
    by (simp only: take_add)
  then have tk: "take (9 + length (Payload g)) b = ?h @ Payload g"
    unfolding lp d(4) [symmetric] .
  show "EncodeFrame (Some g) = Inr (take (9 + length (Payload g)) b)"
    unfolding EncodeFrame_bytes tk using hdr by simp
  have "b = ?h @ drop 9 b" by simp
  also have "drop 9 b = Payload g @ rest"
    unfolding d(4) d(5) by (simp only: append_take_drop_id)
  finally show "b = take (9 + length (Payload g)) b @ rest"
    unfolding tk by simp
qed

text \<open>
  C2. Round trip of the frame codec. For a frame f whose payload is at most \<open>2^32 - 1\<close>
  bytes long, \<open>DecodeFrame\<close> on a reader over \<open>EncodeFrame(f)\<close> returns f (and leaves
  unread whatever follows the encoding in the stream). For a byte sequence b from which
  \<open>DecodeFrame\<close> reads a frame g, \<open>EncodeFrame(g)\<close> is exactly the prefix of b that was
  consumed, and the reader is left at the remainder of b.
\<close>

theorem frame_round_trip:
  "(length (Payload f) \<le> 2 ^ 32 - 1 \<longrightarrow>
      (\<exists>buf. EncodeFrame (Some f) = Inr buf
         \<and> DecodeFrame buf = Inr (f, [])
         \<and> (\<forall>follow. DecodeFrame (buf @ follow) = Inr (f, follow))))
   \<and> (DecodeFrame b = Inr (g, rest) \<longrightarrow>
      (\<exists>enc. EncodeFrame (Some g) = Inr enc \<and> b = enc @ rest))"
proof (intro conjI impI)
  assume wf: "length (Payload f) \<le> 2 ^ 32 - 1"
  let ?buf = "Type f # be32 (ConnID f) @ be32 (of_nat (length (Payload f))) @ Payload f"
  have "\<And>follow. DecodeFrame (?buf @ follow) = Inr (f, follow)"
    using DecodeFrame_EncodeFrame [OF wf] by simp
  moreover from this [of "[]"] have "DecodeFrame ?buf = Inr (f, [])"
    by simp
  ultimately show "\<exists>buf. EncodeFrame (Some f) = Inr buf
         \<and> DecodeFrame buf = Inr (f, [])
         \<and> (\<forall>follow. DecodeFrame (buf @ follow) = Inr (f, follow))"
    unfolding EncodeFrame_bytes by blast
next
  assume "DecodeFrame b = Inr (g, rest)"
  from EncodeFrame_DecodeFrame [OF this]
  show "\<exists>enc. EncodeFrame (Some g) = Inr enc \<and> b = enc @ rest"
    by blast
qed

theorem frame_round_trip_witness:
  "length (Payload \<lparr>Type = 2, ConnID = 7, Payload = [1, 2, 3]\<rparr>) \<le> 2 ^ 32 - 1
   \<and> DecodeFrame [2, 0, 0, 0, 7, 0, 0, 0, 3, 1, 2, 3, 9, 9]
        = Inr (\<lparr>Type = 2, ConnID = 7, Payload = [1, 2, 3]\<rparr>, [9, 9])
   \<and> (\<exists>buf. EncodeFrame (Some \<lparr>Type = 2, ConnID = 7, Payload = [1, 2, 3]\<rparr>) = Inr buf
         \<and> DecodeFrame buf = Inr (\<lparr>Type = 2, ConnID = 7, Payload = [1, 2, 3]\<rparr>, []))
   \<and> (\<exists>enc. EncodeFrame (Some \<lparr>Type = 2, ConnID = 7, Payload = [1, 2, 3]\<rparr>) = Inr enc
         \<and> [2, 0, 0, 0, 7, 0, 0, 0, 3, 1, 2, 3, 9, 9] = enc @ [9, 9])"
proof -
  have h: "length (Payload \<lparr>Type = 2, ConnID = 7, Payload = [1, 2, 3]\<rparr>) \<le> 2 ^ 32 - 1"
    by simp
  have d: "DecodeFrame [2, 0, 0, 0, 7, 0, 0, 0, 3, 1, 2, 3, 9, 9]
        = Inr (\<lparr>Type = 2, ConnID = 7, Payload = [1, 2, 3]\<rparr>, [9, 9])"
    by (simp add: DecodeFrame_def ReadFull_def slice_def Uint32_def Let_def)
  show ?thesis
    using h d
      frame_round_trip [of "\<lparr>Type = 2, ConnID = 7, Payload = [1, 2, 3]\<rparr>"
        "[2, 0, 0, 0, 7, 0, 0, 0, 3, 1, 2, 3, 9, 9]"
        "\<lparr>Type = 2, ConnID = 7, Payload = [1, 2, 3]\<rparr>" "[9, 9]"]
    by blast
qed

section \<open>Properties of the INIT configuration codec\<close>

lemma is_digit_char_of: "(d::nat) < 10 \<Longrightarrow> is_digit (char_of (48 + d))"
  by (simp add: is_digit_def)

lemma digit_val_char_of: "d < 10 \<Longrightarrow> digit_val (char_of (48 + d)) = d"
  by (simp add: digit_val_def)

lemma digits10_digits: "list_all is_digit (digits10 n)"
proof (induction n rule: digits10.induct)
  case (1 n)
  show ?case
  proof (cases "n < 10")
    case True
    then show ?thesis by (subst digits10.simps) (simp add: is_digit_char_of)
  next
    case False
    with 1 show ?thesis by (subst digits10.simps) (simp add: is_digit_char_of)
  qed
qed

lemma digits10_nonempty: "digits10 n \<noteq> []"
  by (subst digits10.simps) simp

lemma unsigned_value_digits10: "unsigned_value (digits10 n) = n"
proof (induction n rule: digits10.induct)
  case (1 n)
  show ?case
  proof (cases "n < 10")
    case True
    then show ?thesis
      by (subst digits10.simps) (simp add: unsigned_value_def digit_val_char_of)
  next
    case False
    with 1 have "unsigned_value (digits10 (n div 10)) = n div 10" by simp
    then show ?thesis
      using False
      by (subst digits10.simps) (simp add: unsigned_value_def digit_val_char_of)
  qed
qed

lemma is_digit_not_special:
  "is_digit c \<Longrightarrow> c \<noteq> CHR '':'' \<and> c \<noteq> CHR ''-'' \<and> c \<noteq> CHR ''+''"
  by (auto simp add: is_digit_def)

lemma digits_no_colon: "list_all is_digit ds \<Longrightarrow> CHR '':'' \<notin> set ds"
  using is_digit_not_special by (auto simp add: list_all_iff)

lemma foldl_digits_ge: "n \<le> foldl (\<lambda>a c. a * 10 + digit_val c) n ds"
proof (induction ds arbitrary: n)
  case Nil
  show ?case by simp
next
  case (Cons c cs)
  have "n \<le> n * 10 + digit_val c" by simp
  also have "\<dots> \<le> foldl (\<lambda>a c. a * 10 + digit_val c) (n * 10 + digit_val c) cs"
    by (rule Cons.IH)
  finally show ?case by simp
qed

lemma parse_digits_ok:
  "list_all is_digit ds \<Longrightarrow> foldl (\<lambda>a c. a * 10 + digit_val c) n ds < 2 ^ 64 \<Longrightarrow>
   parse_digits ds n = Inr (foldl (\<lambda>a c. a * 10 + digit_val c) n ds)"
proof (induction ds arbitrary: n)
  case Nil
  show ?case by simp
next
  case (Cons c cs)
  have "n * 10 + digit_val c \<le> foldl (\<lambda>a c. a * 10 + digit_val c) (n * 10 + digit_val c) cs"
    by (rule foldl_digits_ge)
  with Cons.prems(2) have "n * 10 + digit_val c < 2 ^ 64" by simp
  with Cons show ?case by simp
qed

lemma parse_digits_range:
  "list_all is_digit ds \<Longrightarrow> 2 ^ 64 \<le> foldl (\<lambda>a c. a * 10 + digit_val c) n ds \<Longrightarrow>
   n < 2 ^ 64 \<Longrightarrow> parse_digits ds n = Inl ErrRange"
proof (induction ds arbitrary: n)
  case Nil
  then show ?case by simp
next
  case (Cons c cs)
  then show ?case by (cases "2 ^ 64 \<le> n * 10 + digit_val c") simp_all
qed

lemma parse_digits_syntax:
  "\<not> list_all is_digit ds \<Longrightarrow> \<exists>e. parse_digits ds n = Inl e"
  by (induction ds arbitrary: n) auto

lemma int_range_word:
  "- (2 ^ 63) \<le> v \<Longrightarrow> v < 2 ^ 63 \<Longrightarrow> sint (word_of_int v :: 64 word) = v"
  by (simp add: sint_sbintrunc' signed_take_bit_int_eq_self)

text \<open>\<open>Atoi\<close> on a decimal integer: its value if that fits an \<open>int\<close>, a range error otherwise.\<close>

lemma Atoi_unsigned:
  assumes "ds \<noteq> []" and "list_all is_digit ds"
  shows "Atoi ds = (if unsigned_value ds < 2 ^ 63 then Inr (of_nat (unsigned_value ds))
                    else Inl ErrRange)"
proof -
  have h: "hd ds \<noteq> CHR ''-''" "hd ds \<noteq> CHR ''+''"
    using assms is_digit_not_special [of "hd ds"] by (cases ds; simp)+
  show ?thesis
  proof (cases "unsigned_value ds < 2 ^ 64")
    case True
    then have "parse_digits ds 0 = Inr (unsigned_value ds)"
      using parse_digits_ok [OF assms(2), of 0] by (simp add: unsigned_value_def)
    then show ?thesis
      using assms(1) h by (simp add: Atoi_def)
  next
    case False
    then have "parse_digits ds 0 = Inl ErrRange"
      using parse_digits_range [OF assms(2), of 0] by (simp add: unsigned_value_def)
    then show ?thesis
      using assms(1) h False by (simp add: Atoi_def)
  qed
qed

lemma Atoi_plus:
  assumes "ds \<noteq> []" and "list_all is_digit ds"
  shows "Atoi (CHR ''+'' # ds) = (if unsigned_value ds < 2 ^ 63 then Inr (of_nat (unsigned_value ds))
                    else Inl ErrRange)"
proof (cases "unsigned_value ds < 2 ^ 64")
  case True
  then have "parse_digits ds 0 = Inr (unsigned_value ds)"
    using parse_digits_ok [OF assms(2), of 0] by (simp add: unsigned_value_def)
  then show ?thesis
    using assms(1) by (simp add: Atoi_def)
next
  case False
  then have "parse_digits ds 0 = Inl ErrRange"
    using parse_digits_range [OF assms(2), of 0] by (simp add: unsigned_value_def)
  then show ?thesis
    using assms(1) False by (simp add: Atoi_def)
qed

lemma Atoi_minus:
  assumes "ds \<noteq> []" and "list_all is_digit ds"
  shows "Atoi (CHR ''-'' # ds) = (if unsigned_value ds \<le> 2 ^ 63 then Inr (- of_nat (unsigned_value ds))
                    else Inl ErrRange)"
proof (cases "unsigned_value ds < 2 ^ 64")
  case True
  then have "parse_digits ds 0 = Inr (unsigned_value ds)"
    using parse_digits_ok [OF assms(2), of 0] by (simp add: unsigned_value_def)
  then show ?thesis
    using assms(1) by (simp add: Atoi_def)
next
  case False
  then have "parse_digits ds 0 = Inl ErrRange"
    using parse_digits_range [OF assms(2), of 0] by (simp add: unsigned_value_def)
  then show ?thesis
    using assms(1) False by (simp add: Atoi_def)
qed

lemma Atoi_decimal:
  assumes "is_decimal_integer s"
  shows "Atoi s = (if - (2 ^ 63) \<le> decimal_value s \<and> decimal_value s < 2 ^ 63
                   then Inr (word_of_int (decimal_value s)) else Inl ErrRange)"
proof -
  obtain c cs where s: "s = c # cs"
    using assms by (cases s) (simp_all add: is_decimal_integer_def)
  consider (minus) "c = CHR ''-''" | (plus) "c = CHR ''+''" | (digit) "c \<noteq> CHR ''-''" "c \<noteq> CHR ''+''"
    by blast
  then show ?thesis
  proof cases
    case minus
    with assms s have "cs \<noteq> []" "list_all is_digit cs"
      by (simp_all add: is_decimal_integer_def)
    from Atoi_minus [OF this] show ?thesis
      unfolding s minus by (simp add: decimal_value_def)
  next
    case plus
    with assms s have "cs \<noteq> []" "list_all is_digit cs"
      by (simp_all add: is_decimal_integer_def)
    from Atoi_plus [OF this] show ?thesis
      unfolding s plus by (simp add: decimal_value_def)
  next
    case digit
    with assms s have "s \<noteq> []" "list_all is_digit s"
      by (simp_all add: is_decimal_integer_def)
    from Atoi_unsigned [OF this] show ?thesis
      using digit by (simp add: decimal_value_def s)
  qed
qed

lemma Atoi_not_decimal:
  assumes "\<not> is_decimal_integer s"
  shows "\<exists>e. Atoi s = Inl e"
proof (cases s)
  case Nil
  then show ?thesis by (simp add: Atoi_def)
next
  case (Cons c cs)
  let ?ds = "if c = CHR ''-'' \<or> c = CHR ''+'' then cs else s"
  show ?thesis
  proof (cases "?ds = []")
    case True
    then show ?thesis using Cons by (auto simp add: Atoi_def Let_def split: if_splits)
  next
    case False
    with assms Cons have "\<not> list_all is_digit ?ds"
      by (auto simp add: is_decimal_integer_def split: if_splits)
    from parse_digits_syntax [OF this, of 0] obtain e where "parse_digits ?ds 0 = Inl e" ..
    then show ?thesis using Cons False by (auto simp add: Atoi_def Let_def)
  qed
qed

lemma FormatInt_decimal:
  "is_decimal_integer (FormatInt i) \<and> decimal_value (FormatInt i) = i
     \<and> CHR '':'' \<notin> set (FormatInt i)"
proof (cases "i < 0")
  case True
  then show ?thesis
    using digits10_digits [of "nat (- i)"] digits10_nonempty [of "nat (- i)"]
      digits_no_colon [of "digits10 (nat (- i))"]
    by (simp add: FormatInt_def is_decimal_integer_def decimal_value_def
        unsigned_value_digits10)
next
  case False
  obtain c cs where d: "digits10 (nat i) = c # cs"
    using digits10_nonempty [of "nat i"] by (cases "digits10 (nat i)") auto
  have "is_digit c"
    using digits10_digits [of "nat i"] unfolding d by simp
  then have c: "c \<noteq> CHR ''-''" "c \<noteq> CHR ''+''"
    using is_digit_not_special by blast+
  have u: "unsigned_value (c # cs) = nat i"
    using unsigned_value_digits10 [of "nat i"] unfolding d .
  show ?thesis
    using False digits10_digits [of "nat i"] digits_no_colon [of "digits10 (nat i)"] c u
    unfolding FormatInt_def d
    by (simp add: is_decimal_integer_def decimal_value_def)
qed

lemma takeWhile_first_colon:
  "CHR '':'' \<notin> set p \<Longrightarrow> takeWhile (\<lambda>c. c \<noteq> CHR '':'') (p @ CHR '':'' # rest) = p"
  by (induction p) auto

lemma dropWhile_first_colon:
  "CHR '':'' \<notin> set p \<Longrightarrow>
   dropWhile (\<lambda>c. c \<noteq> CHR '':'') (p @ CHR '':'' # rest) = CHR '':'' # rest"
  by (induction p) auto

lemma SplitN2_first_colon:
  "CHR '':'' \<notin> set p \<Longrightarrow> SplitN2 (p @ CHR '':'' # rest) = [p, rest]"
  by (simp add: SplitN2_def takeWhile_first_colon dropWhile_first_colon)

lemma split_at_first_colon:
  assumes "CHR '':'' \<in> set s"
  shows "s = before_colon s @ CHR '':'' # tl (dropWhile (\<lambda>c. c \<noteq> CHR '':'') s)"
proof -
  let ?d = "dropWhile (\<lambda>c. c \<noteq> CHR '':'') s"
  have ne: "?d \<noteq> []"
    using assms by (simp add: dropWhile_eq_Nil_conv)
  then have "hd ?d = CHR '':''"
    using hd_dropWhile [of "\<lambda>c. c \<noteq> CHR '':''" s] by simp
  with ne have "?d = CHR '':'' # tl ?d"
    by (cases ?d) simp_all
  then show ?thesis
    unfolding before_colon_def
    using takeWhile_dropWhile_id [of "\<lambda>c. c \<noteq> CHR '':''" s] by simp
qed

lemma before_colon_no_colon: "CHR '':'' \<notin> set (before_colon s)"
  unfolding before_colon_def using set_takeWhileD by fastforce

lemma before_colon_append:
  "CHR '':'' \<notin> set p \<Longrightarrow> before_colon (p @ CHR '':'' # rest) = p"
  by (simp add: before_colon_def takeWhile_first_colon)

lemma DecodeInitConfig_no_colon:
  "CHR '':'' \<notin> set s \<Longrightarrow> DecodeInitConfig s = Inl (ErrorString ''invalid init config format'')"
  by (simp add: DecodeInitConfig_def SplitN2_def)

lemma DecodeInitConfig_colon:
  "CHR '':'' \<notin> set p \<Longrightarrow>
   DecodeInitConfig (p @ CHR '':'' # rest) =
     (case Atoi p of
        Inl err \<Rightarrow> Inl (Wrapped ''invalid remote port: '' err)
      | Inr v \<Rightarrow> Inr \<lparr>RemotePort = v, LocalAddr = rest\<rparr>)"
  by (simp add: DecodeInitConfig_def SplitN2_first_colon split: sum.splits)

lemma DecodeInitConfig_decimal:
  assumes "is_decimal_integer d"
  shows "DecodeInitConfig (d @ CHR '':'' # rest) =
     (if - (2 ^ 63) \<le> decimal_value d \<and> decimal_value d < 2 ^ 63
      then Inr \<lparr>RemotePort = word_of_int (decimal_value d), LocalAddr = rest\<rparr>
      else Inl (Wrapped ''invalid remote port: '' ErrRange))"
proof -
  have "CHR '':'' \<notin> set d"
  proof (cases d)
    case Nil
    then show ?thesis by simp
  next
    case (Cons c cs)
    then show ?thesis
      using assms digits_no_colon [of cs] digits_no_colon [of d]
      by (auto simp add: is_decimal_integer_def split: if_splits)
  qed
  then show ?thesis
    by (simp add: DecodeInitConfig_colon Atoi_decimal [OF assms])
qed

lemma DecodeInitConfig_fails_iff:
  "(\<exists>e. DecodeInitConfig s = Inl e) \<longleftrightarrow>
     (CHR '':'' \<notin> set s \<or> \<not> is_decimal_integer (before_colon s)
      \<or> \<not> (- (2 ^ 63) \<le> decimal_value (before_colon s) \<and> decimal_value (before_colon s) < 2 ^ 63))"
proof (cases "CHR '':'' \<in> set s")
  case False
  then show ?thesis by (simp add: DecodeInitConfig_no_colon)
next
  case True
  let ?p = "before_colon s"
  let ?r = "tl (dropWhile (\<lambda>c. c \<noteq> CHR '':'') s)"
  have s: "s = ?p @ CHR '':'' # ?r"
    by (rule split_at_first_colon [OF True])
  have dec: "DecodeInitConfig s = (case Atoi ?p of
        Inl err \<Rightarrow> Inl (Wrapped ''invalid remote port: '' err)
      | Inr v \<Rightarrow> Inr \<lparr>RemotePort = v, LocalAddr = ?r\<rparr>)"
    using DecodeInitConfig_colon [OF before_colon_no_colon, of s ?r] s by simp
  show ?thesis
  proof (cases "is_decimal_integer ?p")
    case d: True
    show ?thesis
      unfolding dec Atoi_decimal [OF d] using True d by simp
  next
    case d: False
    from Atoi_not_decimal [OF d] obtain e where "Atoi ?p = Inl e" ..
    then show ?thesis
      unfolding dec using d by simp
  qed
qed

lemma DecodeInitConfig_EncodeInitConfig:
  "DecodeInitConfig (EncodeInitConfig c) = Inr c"
proof -
  let ?i = "sint (RemotePort c)"
  have r: "- (2 ^ 63) \<le> ?i" "?i < 2 ^ 63"
    using sint_ge [of "RemotePort c"] sint_lt [of "RemotePort c"] by simp_all
  have "DecodeInitConfig (FormatInt ?i @ CHR '':'' # LocalAddr c)
          = Inr \<lparr>RemotePort = word_of_int ?i, LocalAddr = LocalAddr c\<rparr>"
    using DecodeInitConfig_decimal [of "FormatInt ?i" "LocalAddr c"] FormatInt_decimal [of ?i] r
    by simp
  then show ?thesis
    by (simp add: EncodeInitConfig_def)
qed

text \<open>
  C7 (as amended). \<open>EncodeInitConfig\<close> writes the port as a decimal integer (which holds
  no colon), one colon, then \<open>LocalAddr\<close> unchanged; \<open>DecodeInitConfig\<close> undoes it for
  every \<open>InitConfig\<close>; it splits at the first colon only, so whatever follows that colon,
  further colons included, is the \<open>LocalAddr\<close> it returns; and it fails exactly when the
  input has no colon, or the text before the first colon is not a decimal integer, or that
  integer is outside the range of an \<open>int\<close>, \<open>-2^63\<close> to \<open>2^63 - 1\<close>.
\<close>

theorem InitConfig_codec:
  "(\<exists>ds. EncodeInitConfig c = ds @ '':'' @ LocalAddr c \<and> is_decimal_integer ds
          \<and> decimal_value ds = sint (RemotePort c) \<and> CHR '':'' \<notin> set ds)
   \<and> DecodeInitConfig (EncodeInitConfig c) = Inr c
   \<and> (CHR '':'' \<notin> set p \<and> DecodeInitConfig (p @ '':'' @ rest) = Inr cfg
        \<longrightarrow> LocalAddr cfg = rest)
   \<and> ((\<exists>e. DecodeInitConfig s = Inl e) \<longleftrightarrow>
        (CHR '':'' \<notin> set s \<or> \<not> is_decimal_integer (before_colon s)
         \<or> \<not> (- (2 ^ 63) \<le> decimal_value (before_colon s)
               \<and> decimal_value (before_colon s) < 2 ^ 63)))"
proof (intro conjI impI)
  show "\<exists>ds. EncodeInitConfig c = ds @ '':'' @ LocalAddr c \<and> is_decimal_integer ds
          \<and> decimal_value ds = sint (RemotePort c) \<and> CHR '':'' \<notin> set ds"
    using FormatInt_decimal [of "sint (RemotePort c)"]
    unfolding EncodeInitConfig_def by blast
  show "DecodeInitConfig (EncodeInitConfig c) = Inr c"
    by (rule DecodeInitConfig_EncodeInitConfig)
  show "LocalAddr cfg = rest"
    if "CHR '':'' \<notin> set p \<and> DecodeInitConfig (p @ '':'' @ rest) = Inr cfg"
    using that DecodeInitConfig_colon [of p rest]
    by (auto split: sum.splits)
  show "(\<exists>e. DecodeInitConfig s = Inl e) \<longleftrightarrow>
        (CHR '':'' \<notin> set s \<or> \<not> is_decimal_integer (before_colon s)
         \<or> \<not> (- (2 ^ 63) \<le> decimal_value (before_colon s)
               \<and> decimal_value (before_colon s) < 2 ^ 63))"
    by (rule DecodeInitConfig_fails_iff)
qed

theorem InitConfig_codec_witness:
  "CHR '':'' \<notin> set ''18080''
   \<and> DecodeInitConfig (''18080'' @ '':'' @ ''127.0.0.1:80'')
       = Inr \<lparr>RemotePort = 18080, LocalAddr = ''127.0.0.1:80''\<rparr>
   \<and> LocalAddr \<lparr>RemotePort = 18080, LocalAddr = ''127.0.0.1:80''\<rparr> = ''127.0.0.1:80''
   \<and> DecodeInitConfig (EncodeInitConfig \<lparr>RemotePort = 18080, LocalAddr = ''127.0.0.1:80''\<rparr>)
       = Inr \<lparr>RemotePort = 18080, LocalAddr = ''127.0.0.1:80''\<rparr>
   \<and> CHR '':'' \<notin> set ''18080''
   \<and> (\<exists>e. DecodeInitConfig ''18080'' = Inl e)"
proof -
  have a: "CHR '':'' \<notin> set ''18080''" by simp
  have b: "DecodeInitConfig (''18080'' @ '':'' @ ''127.0.0.1:80'')
       = Inr \<lparr>RemotePort = 18080, LocalAddr = ''127.0.0.1:80''\<rparr>"
    by (simp add: DecodeInitConfig_def SplitN2_def Atoi_def is_digit_def digit_val_def)
  note t = InitConfig_codec [of "\<lparr>RemotePort = 18080, LocalAddr = ''127.0.0.1:80''\<rparr>"
      "''18080''" "''127.0.0.1:80''" "\<lparr>RemotePort = 18080, LocalAddr = ''127.0.0.1:80''\<rparr>"
      "''18080''"]
  from t a b have c: "LocalAddr \<lparr>RemotePort = 18080, LocalAddr = ''127.0.0.1:80''\<rparr> = ''127.0.0.1:80''"
    by blast
  from t have d: "DecodeInitConfig (EncodeInitConfig \<lparr>RemotePort = 18080, LocalAddr = ''127.0.0.1:80''\<rparr>)
       = Inr \<lparr>RemotePort = 18080, LocalAddr = ''127.0.0.1:80''\<rparr>"
    by blast
  from t a have e: "\<exists>e. DecodeInitConfig ''18080'' = Inl e"
    by blast
  show ?thesis using a b c d e by blast
qed

text \<open>
  The statement as the specification words it (failure exactly when there is no colon or the text before it
  is not a decimal integer) does not hold: \<open>9223372036854775808\<close> is a decimal integer,
  the input has a colon, and decoding fails with a range error.
\<close>

theorem DecodeInitConfig_fails_counterexample:
  "CHR '':'' \<in> set ''9223372036854775808:x''
   \<and> before_colon ''9223372036854775808:x'' = ''9223372036854775808''
   \<and> is_decimal_integer ''9223372036854775808''
   \<and> DecodeInitConfig ''9223372036854775808:x''
       = Inl (Wrapped ''invalid remote port: '' ErrRange)"
  by (simp add: before_colon_def is_decimal_integer_def DecodeInitConfig_def SplitN2_def
      Atoi_def is_digit_def digit_val_def)

text \<open>
  C10 (as amended). \<open>DecodeInitConfig\<close> checks no port range: for an input
  \<open><d>:<rest>\<close> where \<open><d>\<close> is a decimal integer that fits an \<open>int\<close> (from \<open>-2^63\<close>
  to \<open>2^63 - 1\<close>), negative values and values above 65535 included, decoding succeeds
  and returns that integer as \<open>RemotePort\<close> and \<open><rest>\<close> as \<open>LocalAddr\<close>.
\<close>

theorem DecodeInitConfig_no_port_validation:
  assumes "is_decimal_integer d"
    and "- (2 ^ 63) \<le> decimal_value d" and "decimal_value d < 2 ^ 63"
  shows "\<exists>cfg. DecodeInitConfig (d @ '':'' @ rest) = Inr cfg
           \<and> sint (RemotePort cfg) = decimal_value d \<and> LocalAddr cfg = rest"
  using DecodeInitConfig_decimal [OF assms(1), of rest] assms(2,3)
  by (simp add: int_range_word)

theorem DecodeInitConfig_no_port_validation_witness:
  "is_decimal_integer ''-5'' \<and> - (2 ^ 63) \<le> decimal_value ''-5'' \<and> decimal_value ''-5'' < 2 ^ 63
   \<and> decimal_value ''-5'' = - 5
   \<and> (\<exists>cfg. DecodeInitConfig (''-5'' @ '':'' @ ''127.0.0.1:80'') = Inr cfg
           \<and> sint (RemotePort cfg) = decimal_value ''-5'' \<and> LocalAddr cfg = ''127.0.0.1:80'')
   \<and> is_decimal_integer ''70000'' \<and> - (2 ^ 63) \<le> decimal_value ''70000''
   \<and> decimal_value ''70000'' < 2 ^ 63 \<and> decimal_value ''70000'' = 70000
   \<and> (\<exists>cfg. DecodeInitConfig (''70000'' @ '':'' @ ''x'') = Inr cfg
           \<and> sint (RemotePort cfg) = decimal_value ''70000'' \<and> LocalAddr cfg = ''x'')"
proof -
  have a: "is_decimal_integer ''-5''" "decimal_value ''-5'' = - 5"
    by (simp_all add: is_decimal_integer_def decimal_value_def unsigned_value_def
        is_digit_def digit_val_def)
  have b: "is_decimal_integer ''70000''" "decimal_value ''70000'' = 70000"
    by (simp_all add: is_decimal_integer_def decimal_value_def unsigned_value_def
        is_digit_def digit_val_def)
  have ra: "- (2 ^ 63) \<le> decimal_value ''-5''" "decimal_value ''-5'' < 2 ^ 63"
    unfolding a(2) by simp_all
  have rb: "- (2 ^ 63) \<le> decimal_value ''70000''" "decimal_value ''70000'' < 2 ^ 63"
    unfolding b(2) by simp_all
  show ?thesis
    using a b ra rb
      DecodeInitConfig_no_port_validation [OF a(1) ra, of "''127.0.0.1:80''"]
      DecodeInitConfig_no_port_validation [OF b(1) rb, of "''x''"]
    by blast
qed

text \<open>
  The statement as the specification words it (any decimal integer decodes) does not hold:
  \<open>99999999999999999999\<close> is a decimal integer above 65535, and decoding fails.
\<close>

theorem DecodeInitConfig_any_integer_counterexample:
  "is_decimal_integer ''99999999999999999999''
   \<and> DecodeInitConfig (''99999999999999999999'' @ '':'' @ ''127.0.0.1:80'')
       = Inl (Wrapped ''invalid remote port: '' ErrRange)"
  by (simp add: is_decimal_integer_def DecodeInitConfig_def SplitN2_def
      Atoi_def is_digit_def digit_val_def)

section \<open>Properties of the PQC transport\<close>














text \<open>
  C4. On an established connection, with a buffer of five bytes, when the one call of
  \<open>SSL_write\<close> (or \<open>SSL_read\<close>) returns \<open>-1\<close> and \<open>SSL_get_error\<close> reports want-write (or
  want-read), the method returns at once with \<open>(0, nil)\<close>: no byte moved, no error, and
  no second call.
\<close>

theorem PQCConn_want_returns_zero_nil:
  "PQCConn_Write \<lparr>conn = 3, ssl = Some \<lparr>negotiated_group = 513, group_name = Some ''MLKEM768''\<rparr>,
                  ctx = 1\<rparr> 5 (- 1) SSL_ERROR_WANT_WRITE = (0, None)
   \<and> PQCConn_Read \<lparr>conn = 3, ssl = Some \<lparr>negotiated_group = 513, group_name = Some ''MLKEM768''\<rparr>,
                  ctx = 1\<rparr> 5 (- 1) SSL_ERROR_WANT_READ = (0, None)"
  by (simp add: PQCConn_Write_def PQCConn_Read_def SSL_ERROR_WANT_WRITE_def
      SSL_ERROR_WANT_READ_def SSL_ERROR_ZERO_RETURN_def)

section \<open>Properties of the tunnel engines\<close>

lemma frame_bytes_eq:
  "frame_bytes ty connID payload = ty # be32 connID @ be32 (of_nat (length payload)) @ payload"
  by (simp add: frame_bytes_def EncodeFrame_bytes)

lemma EncodeFrame_frame_bytes:
  "EncodeFrame (Some \<lparr>Type = ty, ConnID = connID, Payload = payload\<rparr>)
     = Inr (frame_bytes ty connID payload)"
  by (simp add: frame_bytes_def EncodeFrame_bytes)

lemma DecodeFrame_frame_bytes:
  assumes "length payload \<le> 2 ^ 32 - 1"
  shows "DecodeFrame (frame_bytes ty connID payload)
           = Inr (\<lparr>Type = ty, ConnID = connID, Payload = payload\<rparr>, [])"
  using DecodeFrame_EncodeFrame [of "\<lparr>Type = ty, ConnID = connID, Payload = payload\<rparr>" "[]"] assms
  by (simp add: frame_bytes_eq)

lemma write_close_Some:
  "write_close (Some ctl) connID = [CtlWrite ctl (frame_bytes FrameTypeCLOSE connID [])]"
  by (simp add: write_close_def EncodeFrame_frame_bytes)

text \<open>No handler of the client changes its control connection.\<close>

lemma Client_handleFrame_controlConn:
  "Client_handleFrame c frame dial wr = (c', evs, err) \<Longrightarrow> controlConn c' = controlConn c"
  by (auto simp add: Client_handleFrame_def Client_handleNewConn_def Client_handleDataFrame_def
      Client_handleCloseFrame_def Let_def split: if_splits sum.splits option.splits)

text \<open>
  C8. A NEW_CONN frame reaches the client over its control connection. The client dials
  its configured local address with a timeout of 5 seconds. If the dial fails, it writes a
  CLOSE frame for the stream id of the frame on the control connection and leaves its
  stream map as it was; if the dial succeeds, it stores the local socket under the stream
  id and starts the forwarding task for that socket.
\<close>

theorem Client_new_conn:
  assumes "Type frame = FrameTypeNEW_CONN" and "controlConn c = Some ctl"
  shows "Client_handleFrame c frame (Inl err) wr =
           (c, [DialTimeout (localAddr c) 5,
                CtlWrite ctl (frame_bytes FrameTypeCLOSE (ConnID frame) [])], Some err)
         \<and> DecodeFrame (frame_bytes FrameTypeCLOSE (ConnID frame) [])
             = Inr (\<lparr>Type = FrameTypeCLOSE, ConnID = ConnID frame, Payload = []\<rparr>, [])
         \<and> Client_handleFrame c frame (Inr localConn) wr =
           (c\<lparr>connMap := (connMap c)(ConnID frame \<mapsto> localConn)\<rparr>,
            [DialTimeout (localAddr c) 5,
             MapStore (ConnID frame) localConn,
             GoForward (ConnID frame) localConn], None)"
  using assms
  by (simp add: Client_handleFrame_def Client_handleNewConn_def Client_sendCloseFrame_def
      write_close_Some DecodeFrame_frame_bytes)

theorem Client_new_conn_witness:
  "Type \<lparr>Type = 1, ConnID = 9, Payload = []\<rparr> = FrameTypeNEW_CONN
   \<and> controlConn \<lparr>localAddr = ''127.0.0.1:80'', controlConn = Some 1, connMap = Map.empty\<rparr> = Some 1
   \<and> fst (snd (Client_handleFrame
        \<lparr>localAddr = ''127.0.0.1:80'', controlConn = Some 1, connMap = Map.empty\<rparr>
        \<lparr>Type = 1, ConnID = 9, Payload = []\<rparr> (Inl (ErrorString ''connection refused'')) None))
       = [DialTimeout ''127.0.0.1:80'' 5, CtlWrite 1 [3, 0, 0, 0, 9, 0, 0, 0, 0]]
   \<and> connMap (fst (Client_handleFrame
        \<lparr>localAddr = ''127.0.0.1:80'', controlConn = Some 1, connMap = Map.empty\<rparr>
        \<lparr>Type = 1, ConnID = 9, Payload = []\<rparr> (Inl (ErrorString ''connection refused'')) None)) 9
       = None
   \<and> connMap (fst (Client_handleFrame
        \<lparr>localAddr = ''127.0.0.1:80'', controlConn = Some 1, connMap = Map.empty\<rparr>
        \<lparr>Type = 1, ConnID = 9, Payload = []\<rparr> (Inr 4) None)) 9
       = Some 4
   \<and> fst (snd (Client_handleFrame
        \<lparr>localAddr = ''127.0.0.1:80'', controlConn = Some 1, connMap = Map.empty\<rparr>
        \<lparr>Type = 1, ConnID = 9, Payload = []\<rparr> (Inr 4) None))
       = [DialTimeout ''127.0.0.1:80'' 5, MapStore 9 4, GoForward 9 4]"
proof -
  let ?c = "\<lparr>localAddr = ''127.0.0.1:80'', controlConn = Some 1, connMap = Map.empty\<rparr>"
  let ?f = "\<lparr>Type = 1, ConnID = 9, Payload = []\<rparr>"
  have a: "Type ?f = FrameTypeNEW_CONN" by (simp add: FrameTypeNEW_CONN_def)
  have b: "controlConn ?c = Some 1" by simp
  have bytes: "frame_bytes FrameTypeCLOSE 9 [] = [3, 0, 0, 0, 9, 0, 0, 0, 0]"
    by (simp add: frame_bytes_eq be32_def FrameTypeCLOSE_def)
  show ?thesis
    using Client_new_conn [OF a b, of "ErrorString ''connection refused''" None 4] a bytes
    by simp
qed

text \<open>
  C9 (as amended). When a CLOSE frame reaches the client for a stream id that is in its
  stream map, the client removes the entry, closes the local socket and writes a CLOSE
  frame for that id back on the control connection; when the id is not in the map, the
  client does nothing and writes no CLOSE frame.
\<close>

theorem Client_close_frame:
  assumes "Type frame = FrameTypeCLOSE" and "controlConn c = Some ctl"
  shows "(connMap c (ConnID frame) = Some localConn \<longrightarrow>
            Client_handleFrame c frame dial wr =
              (c\<lparr>connMap := (connMap c)(ConnID frame := None)\<rparr>,
               [MapDelete (ConnID frame), SockClose localConn,
                CtlWrite ctl (frame_bytes FrameTypeCLOSE (ConnID frame) [])], None))
         \<and> (connMap c (ConnID frame) = None \<longrightarrow>
            Client_handleFrame c frame dial wr = (c, [], None))"
  using assms
  by (simp add: Client_handleFrame_def Client_handleCloseFrame_def Client_sendCloseFrame_def
      write_close_Some FrameTypeCLOSE_def FrameTypeNEW_CONN_def FrameTypeDATA_def Let_def)

theorem Client_close_frame_witness:
  "Type \<lparr>Type = 3, ConnID = 9, Payload = []\<rparr> = FrameTypeCLOSE
   \<and> controlConn \<lparr>localAddr = ''127.0.0.1:80'', controlConn = Some 1, connMap = [9 \<mapsto> 4]\<rparr> = Some 1
   \<and> connMap \<lparr>localAddr = ''127.0.0.1:80'', controlConn = Some 1, connMap = [9 \<mapsto> 4]\<rparr> 9 = Some 4
   \<and> fst (snd (Client_handleFrame
        \<lparr>localAddr = ''127.0.0.1:80'', controlConn = Some 1, connMap = [9 \<mapsto> 4]\<rparr>
        \<lparr>Type = 3, ConnID = 9, Payload = []\<rparr> (Inr 0) None))
       = [MapDelete 9, SockClose 4, CtlWrite 1 [3, 0, 0, 0, 9, 0, 0, 0, 0]]
   \<and> connMap (fst (Client_handleFrame
        \<lparr>localAddr = ''127.0.0.1:80'', controlConn = Some 1, connMap = [9 \<mapsto> 4]\<rparr>
        \<lparr>Type = 3, ConnID = 9, Payload = []\<rparr> (Inr 0) None)) 9 = None
   \<and> connMap \<lparr>localAddr = ''127.0.0.1:80'', controlConn = Some 1, connMap = [9 \<mapsto> 4]\<rparr> 8 = None
   \<and> fst (snd (Client_handleFrame
        \<lparr>localAddr = ''127.0.0.1:80'', controlConn = Some 1, connMap = [9 \<mapsto> 4]\<rparr>
        \<lparr>Type = 3, ConnID = 8, Payload = []\<rparr> (Inr 0) None)) = []"
proof -
  let ?c = "\<lparr>localAddr = ''127.0.0.1:80'', controlConn = Some 1, connMap = [9 \<mapsto> 4]\<rparr>"
  let ?f = "\<lparr>Type = 3, ConnID = 9, Payload = []\<rparr>"
  let ?g = "\<lparr>Type = 3, ConnID = 8, Payload = []\<rparr>"
  have a: "Type ?f = FrameTypeCLOSE" "Type ?g = FrameTypeCLOSE"
    by (simp_all add: FrameTypeCLOSE_def)
  have b: "controlConn ?c = Some 1" by simp
  have bytes: "frame_bytes FrameTypeCLOSE 9 [] = [3, 0, 0, 0, 9, 0, 0, 0, 0]"
    by (simp add: frame_bytes_eq be32_def FrameTypeCLOSE_def)
  show ?thesis
    using Client_close_frame [OF a(1) b, of 4 "Inr 0" None]
      Client_close_frame [OF a(2) b, of 4 "Inr 0" None] a bytes
    by simp
qed

text \<open>
  The statement as the specification words it (every CLOSE frame received is echoed) does not hold: for a
  stream id that is not in the map the client writes nothing.
\<close>

theorem Client_close_frame_counterexample:
  "Client_handleFrame \<lparr>localAddr = ''127.0.0.1:80'', controlConn = Some 1, connMap = Map.empty\<rparr>
     \<lparr>Type = FrameTypeCLOSE, ConnID = 9, Payload = []\<rparr> (Inr 0) None
   = (\<lparr>localAddr = ''127.0.0.1:80'', controlConn = Some 1, connMap = Map.empty\<rparr>, [], None)"
  by (simp add: Client_handleFrame_def Client_handleCloseFrame_def
      FrameTypeCLOSE_def FrameTypeNEW_CONN_def FrameTypeDATA_def)

lemma new_conn_ids_append: "new_conn_ids (xs @ ys) = new_conn_ids xs @ new_conn_ids ys"
proof (induction xs)
  case Nil
  show ?case by simp
next
  case (Cons e es)
  then show ?case by (cases e) (auto split: sum.splits)
qed

text \<open>One accepted socket: the counter moves by one, and its new value is the id announced.\<close>

lemma Server_handlePublicConnection_step:
  assumes "clients s clientID = Some ci"
    and "Server_handlePublicConnection s publicConn clientID ok = (s', evs)"
  shows "\<exists>ci'. clients s' clientID = Some ci'
           \<and> NextConnID ci' = NextConnID ci + 1
           \<and> new_conn_ids evs = [NextConnID ci + 1]
           \<and> dom (ConnMap ci') \<subseteq> insert (NextConnID ci + 1) (dom (ConnMap ci))"
proof (cases ok)
  case True
  with assms show ?thesis
    by (auto simp add: Server_handlePublicConnection_def Let_def AddUint32_def
        EncodeFrame_frame_bytes DecodeFrame_frame_bytes)
next
  case False
  with assms show ?thesis
    by (auto simp add: Server_handlePublicConnection_def Let_def AddUint32_def
        EncodeFrame_frame_bytes DecodeFrame_frame_bytes)
qed

lemma Server_handleCloseFrame_step:
  assumes "clients s clientID = Some ci"
    and "Server_handleCloseFrame s clientID frame = (s', evs)"
  shows "\<exists>ci'. clients s' clientID = Some ci'
           \<and> NextConnID ci' = NextConnID ci
           \<and> new_conn_ids evs = []
           \<and> dom (ConnMap ci') \<subseteq> dom (ConnMap ci)"
  using assms
  by (auto simp add: Server_handleCloseFrame_def split: option.splits)

lemma Server_run_ids:
  assumes "clients s clientID = Some ci"
    and "Server_run s clientID ops = (s', evs)"
  shows "\<exists>ci'. clients s' clientID = Some ci'
           \<and> NextConnID ci' = NextConnID ci + of_nat (length (filter is_PublicConn ops))
           \<and> new_conn_ids evs =
               map (\<lambda>k. NextConnID ci + of_nat k) [1..<Suc (length (filter is_PublicConn ops))]
           \<and> dom (ConnMap ci') \<subseteq> dom (ConnMap ci) \<union> set (new_conn_ids evs)"
  using assms
proof (induction ops arbitrary: s ci s' evs)
  case Nil
  then show ?case by simp
next
  case (Cons op ops)
  show ?case
  proof (cases op)
    case (PublicConn publicConn ok)
    obtain s1 e1 where h: "Server_handlePublicConnection s publicConn clientID ok = (s1, e1)"
      by (cases "Server_handlePublicConnection s publicConn clientID ok")
    obtain s2 e2 where r: "Server_run s1 clientID ops = (s2, e2)"
      by (cases "Server_run s1 clientID ops")
    from Cons.prems(2) h r have res: "s' = s2" "evs = e1 @ e2"
      by (simp_all add: PublicConn)
    from Server_handlePublicConnection_step [OF Cons.prems(1) h]
    obtain c1 where c1: "clients s1 clientID = Some c1"
      "NextConnID c1 = NextConnID ci + 1"
      "new_conn_ids e1 = [NextConnID ci + 1]"
      "dom (ConnMap c1) \<subseteq> insert (NextConnID ci + 1) (dom (ConnMap ci))"
      by blast
    from Cons.IH [OF c1(1) r]
    obtain c2 where c2: "clients s2 clientID = Some c2"
      "NextConnID c2 = NextConnID c1 + of_nat (length (filter is_PublicConn ops))"
      "new_conn_ids e2 =
         map (\<lambda>k. NextConnID c1 + of_nat k) [1..<Suc (length (filter is_PublicConn ops))]"
      "dom (ConnMap c2) \<subseteq> dom (ConnMap c1) \<union> set (new_conn_ids e2)"
      by blast
    let ?n = "length (filter is_PublicConn ops)"
    have shift: "map (\<lambda>k. NextConnID c1 + of_nat k) [1..<Suc ?n]
                   = map (\<lambda>k. NextConnID ci + of_nat k) [2..<Suc (Suc ?n)]"
    proof -
      have "[2..<Suc (Suc ?n)] = map Suc [1..<Suc ?n]"
        unfolding map_Suc_upt by (simp only: numeral_2_eq_2 One_nat_def)
      then show ?thesis
        by (simp add: c1(2) comp_def add.assoc del: upt_Suc)
    qed
    have upt: "[1..<Suc (Suc ?n)] = 1 # [2..<Suc (Suc ?n)]"
      by (simp add: upt_conv_Cons numeral_2_eq_2 del: upt_Suc)
    have ids: "new_conn_ids evs = map (\<lambda>k. NextConnID ci + of_nat k) [1..<Suc (Suc ?n)]"
      unfolding res new_conn_ids_append c1(3) c2(3) shift upt by (simp del: upt_Suc)
    have "clients s' clientID = Some c2" using c2(1) res by simp
    moreover have "NextConnID c2 = NextConnID ci + of_nat (Suc ?n)"
      using c2(2) c1(2) by simp
    moreover have "dom (ConnMap c2) \<subseteq> dom (ConnMap ci) \<union> set (new_conn_ids evs)"
      using c2(4) c1(4) c1(3) unfolding res new_conn_ids_append by auto
    ultimately show ?thesis
      using ids by (simp add: PublicConn del: upt_Suc)
  next
    case (CloseFrame connID)
    let ?f = "\<lparr>Type = FrameTypeCLOSE, ConnID = connID, Payload = []\<rparr>"
    obtain s1 e1 where h: "Server_handleCloseFrame s clientID ?f = (s1, e1)"
      by (cases "Server_handleCloseFrame s clientID ?f")
    obtain s2 e2 where r: "Server_run s1 clientID ops = (s2, e2)"
      by (cases "Server_run s1 clientID ops")
    from Cons.prems(2) h r have res: "s' = s2" "evs = e1 @ e2"
      by (simp_all add: CloseFrame)
    from Server_handleCloseFrame_step [OF Cons.prems(1) h]
    obtain c1 where c1: "clients s1 clientID = Some c1"
      "NextConnID c1 = NextConnID ci"
      "new_conn_ids e1 = []"
      "dom (ConnMap c1) \<subseteq> dom (ConnMap ci)"
      by blast
    from Cons.IH [OF c1(1) r]
    obtain c2 where c2: "clients s2 clientID = Some c2"
      "NextConnID c2 = NextConnID c1 + of_nat (length (filter is_PublicConn ops))"
      "new_conn_ids e2 =
         map (\<lambda>k. NextConnID c1 + of_nat k) [1..<Suc (length (filter is_PublicConn ops))]"
      "dom (ConnMap c2) \<subseteq> dom (ConnMap c1) \<union> set (new_conn_ids e2)"
      by blast
    have "dom (ConnMap c2) \<subseteq> dom (ConnMap ci) \<union> set (new_conn_ids evs)"
      using c2(4) c1(4) c1(3) unfolding res new_conn_ids_append by auto
    then show ?thesis
      using c2 c1 res by (simp add: CloseFrame new_conn_ids_append del: upt_Suc)
  qed
qed

lemma registerClient_fresh:
  assumes "registerClient s ctl = (clientID, s0)"
  shows "\<exists>ci. clients s0 clientID = Some ci \<and> NextConnID ci = 0 \<and> ConnMap ci = Map.empty
           \<and> Conn ci = ctl"
  using assms by (auto simp add: registerClient_def Let_def)

lemma unat_of_nat_small: "k < 2 ^ 32 \<Longrightarrow> unat (of_nat k :: 32 word) = k"
  by (simp add: unat_of_nat take_bit_nat_eq_self)

lemma session_ids:
  assumes "registerClient s ctl = (clientID, s0)"
    and "Server_run s0 clientID ops = (s', evs)"
  shows "\<exists>ci'. clients s' clientID = Some ci'
           \<and> new_conn_ids evs = map of_nat [1..<Suc (length (filter is_PublicConn ops))]
           \<and> dom (ConnMap ci') \<subseteq> set (new_conn_ids evs)"
proof -
  from registerClient_fresh [OF assms(1)]
  obtain ci where ci: "clients s0 clientID = Some ci" "NextConnID ci = 0" "ConnMap ci = Map.empty"
    by blast
  let ?n = "length (filter is_PublicConn ops)"
  from Server_run_ids [OF ci(1) assms(2)]
  obtain ci' where r: "clients s' clientID = Some ci'"
    "new_conn_ids evs = map (\<lambda>k. NextConnID ci + of_nat k) [1..<Suc ?n]"
    "dom (ConnMap ci') \<subseteq> dom (ConnMap ci) \<union> set (new_conn_ids evs)"
    by blast
  have "map (\<lambda>k. NextConnID ci + of_nat k) [1..<Suc ?n] = map of_nat [1..<Suc ?n]"
    unfolding ci(2) by (rule map_cong) simp_all
  with r(2) have ids: "new_conn_ids evs = map of_nat [1..<Suc ?n]" by simp
  have "dom (ConnMap ci') \<subseteq> set (new_conn_ids evs)"
    using r(3) unfolding ci(3) by simp
  with r(1) ids show ?thesis by blast
qed

text \<open>
  C6 (as amended). A client session is registered with its counter at zero and an empty
  streams table. Whatever then happens to the session (sockets accepted for it, with the
  NEW_CONN write succeeding or failing, and CLOSE frames coming from the client), the k-th
  allocation yields the id \<open>k mod 2^32\<close>: the first id is 1, and as long as fewer than
  \<open>2^32\<close> ids have been allocated in the session the ids are \<open>1, 2, 3, ...\<close>, strictly
  increasing, none of them is 0, and 0 is not a key of the session's streams table (only
  \<open>handlePublicConnection\<close> stores into it, under the id it has just allocated).
\<close>

theorem stream_id_allocation:
  assumes "registerClient s ctl = (clientID, s0)"
    and "Server_run s0 clientID ops = (s', evs)"
    and "n = length (filter is_PublicConn ops)"
  shows "\<exists>ci ci'. clients s0 clientID = Some ci \<and> NextConnID ci = 0 \<and> ConnMap ci = Map.empty
           \<and> clients s' clientID = Some ci'
           \<and> new_conn_ids evs = map of_nat [1..<Suc n]
           \<and> (n < 2 ^ 32 \<longrightarrow>
                 map unat (new_conn_ids evs) = [1..<Suc n]
                 \<and> sorted_wrt (<) (map unat (new_conn_ids evs))
                 \<and> 0 \<notin> set (new_conn_ids evs)
                 \<and> 0 \<notin> dom (ConnMap ci'))"
proof -
  from registerClient_fresh [OF assms(1)]
  obtain ci where ci: "clients s0 clientID = Some ci" "NextConnID ci = 0" "ConnMap ci = Map.empty"
    by blast
  from session_ids [OF assms(1,2)]
  obtain ci' where r: "clients s' clientID = Some ci'"
    "new_conn_ids evs = map of_nat [1..<Suc n]"
    "dom (ConnMap ci') \<subseteq> set (new_conn_ids evs)"
    unfolding assms(3) by blast
  have small: "map unat (new_conn_ids evs) = [1..<Suc n]
                 \<and> sorted_wrt (<) (map unat (new_conn_ids evs))
                 \<and> 0 \<notin> set (new_conn_ids evs)
                 \<and> 0 \<notin> dom (ConnMap ci')" if n: "n < 2 ^ 32"
  proof -
    have u: "unat (of_nat k :: 32 word) = k" if "k \<in> set [1..<Suc n]" for k
      using that n by (intro unat_of_nat_small) (simp del: upt_Suc)
    have m: "map unat (new_conn_ids evs) = [1..<Suc n]"
      unfolding r(2) map_map comp_def using u by (intro map_idI) simp
    have z: "0 \<notin> set (new_conn_ids evs)"
    proof
      assume "0 \<in> set (new_conn_ids evs)"
      then have "unat (0 :: 32 word) \<in> unat ` set (new_conn_ids evs)"
        by (rule imageI)
      then have "(0 :: nat) \<in> set (map unat (new_conn_ids evs))"
        by simp
      then show False unfolding m by (simp del: upt_Suc)
    qed
    have "sorted_wrt (<) [1..<Suc n]"
      by (rule sorted_wrt_upt)
    with m z r(3) show ?thesis by auto
  qed
  from ci r(1,2) small show ?thesis by blast
qed

theorem stream_id_allocation_witness:
  "registerClient NewServer 1 = (fst (registerClient NewServer 1), snd (registerClient NewServer 1))
   \<and> (3::nat) = length (filter is_PublicConn
                    [PublicConn 7 True, CloseFrame 1, PublicConn 8 False, PublicConn 9 True])
   \<and> (3::nat) < 2 ^ 32
   \<and> new_conn_ids (snd (Server_run (snd (registerClient NewServer 1))
        (fst (registerClient NewServer 1))
        [PublicConn 7 True, CloseFrame 1, PublicConn 8 False, PublicConn 9 True])) = [1, 2, 3]
   \<and> 0 \<notin> set (new_conn_ids (snd (Server_run (snd (registerClient NewServer 1))
        (fst (registerClient NewServer 1))
        [PublicConn 7 True, CloseFrame 1, PublicConn 8 False, PublicConn 9 True])))"
proof -
  let ?ops = "[PublicConn 7 True, CloseFrame 1, PublicConn 8 False, PublicConn 9 True]"
  let ?reg = "registerClient NewServer 1"
  let ?run = "Server_run (snd ?reg) (fst ?reg) ?ops"
  have a: "?reg = (fst ?reg, snd ?reg)" by simp
  have b: "?run = (fst ?run, snd ?run)" by simp
  have c: "(3::nat) = length (filter is_PublicConn ?ops)" by simp
  have d: "(3::nat) < 2 ^ 32" by simp
  have e: "map of_nat [1..<Suc 3] = [1, 2, 3 :: 32 word]"
    by (simp add: upt_rec)
  from stream_id_allocation [OF a b c] d e
  have "new_conn_ids (snd ?run) = [1, 2, 3]" "0 \<notin> set (new_conn_ids (snd ?run))"
    by auto
  with a c d show ?thesis by blast
qed

text \<open>
  The statement as the specification words it (0 is never produced) does not hold: the counter is a
  \<open>uint32\<close>, and the \<open>2^32\<close>-th socket accepted in one session is announced with id 0.
\<close>

theorem stream_id_zero_counterexample:
  "0 \<in> set (new_conn_ids (snd (Server_run (snd (registerClient NewServer 1))
        (fst (registerClient NewServer 1)) (replicate (2 ^ 32) (PublicConn 7 True)))))"
proof -
  let ?reg = "registerClient NewServer 1"
  let ?ops = "replicate (2 ^ 32) (PublicConn 7 True)"
  let ?run = "Server_run (snd ?reg) (fst ?reg) ?ops"
  have a: "?reg = (fst ?reg, snd ?reg)" by simp
  have b: "?run = (fst ?run, snd ?run)" by simp
  have n: "length (filter is_PublicConn ?ops) = 2 ^ 32" by simp
  from session_ids [OF a b]
  have ids: "new_conn_ids (snd ?run) = map of_nat [1..<Suc (2 ^ 32)]"
    unfolding n by blast
  have "(2 ^ 32 :: nat) \<in> set [1..<Suc (2 ^ 32)]" by simp
  then have "(of_nat (2 ^ 32) :: 32 word) \<in> set (map of_nat [1..<Suc (2 ^ 32)])"
    unfolding set_map by (rule imageI)
  moreover have "(of_nat (2 ^ 32) :: 32 word) = 0" by simp
  ultimately have "(0 :: 32 word) \<in> set (map of_nat [1..<Suc (2 ^ 32)])"
    by (simp only:)
  then show ?thesis unfolding ids .
qed

lemma only_after_prefix:
  assumes "a \<in> set xs"
  shows "only_after P a (xs @ ys) \<longleftrightarrow> only_after P a xs"
proof -
  have eq: "takeWhile (\<lambda>e. e \<noteq> a) (xs @ ys) = takeWhile (\<lambda>e. e \<noteq> a) xs"
    by (rule takeWhile_append1 [OF assms]) simp
  show ?thesis
    unfolding only_after_def eq by simp
qed

lemma Server_handlePublicConnection_ok:
  assumes "clients s clientID = Some ci"
  shows "Server_handlePublicConnection s publicConn clientID True =
     (s\<lparr>clients := (clients s)(clientID \<mapsto>
          ci\<lparr>NextConnID := NextConnID ci + 1,
             ConnMap := (ConnMap ci)(NextConnID ci + 1 \<mapsto> publicConn)\<rparr>)\<rparr>,
      [CtlWrite (Conn ci) (frame_bytes FrameTypeNEW_CONN (NextConnID ci + 1) []),
       MapStore (NextConnID ci + 1) publicConn,
       GoForward (NextConnID ci + 1) publicConn])"
  using assms
  by (simp add: Server_handlePublicConnection_def Let_def AddUint32_def EncodeFrame_frame_bytes)

lemma Server1_handlePublicConnection_ok:
  assumes "s1_controlConn s = Some ctl"
  shows "Server1_handlePublicConnection s publicConn True =
     (s\<lparr>s1_nextConnID := s1_nextConnID s + 1,
        s1_connMap := (s1_connMap s)(s1_nextConnID s + 1 \<mapsto> publicConn)\<rparr>,
      [MapStore (s1_nextConnID s + 1) publicConn,
       CtlWrite ctl (frame_bytes FrameTypeNEW_CONN (s1_nextConnID s + 1) []),
       GoForward (s1_nextConnID s + 1) publicConn])"
  using assms
  by (simp add: Server1_handlePublicConnection_def Let_def AddUint32_def EncodeFrame_frame_bytes)

lemma Server_handlePublicConnection_fail:
  assumes "clients s clientID = Some ci"
  shows "Server_handlePublicConnection s publicConn clientID False =
     (s\<lparr>clients := (clients s)(clientID \<mapsto> ci\<lparr>NextConnID := NextConnID ci + 1\<rparr>)\<rparr>,
      [CtlWrite (Conn ci) (frame_bytes FrameTypeNEW_CONN (NextConnID ci + 1) []),
       SockClose publicConn])"
  using assms
  by (simp add: Server_handlePublicConnection_def Let_def AddUint32_def EncodeFrame_frame_bytes)

lemma Server1_handlePublicConnection_fail:
  assumes "s1_controlConn s = Some ctl"
  shows "Server1_handlePublicConnection s publicConn False =
     (s\<lparr>s1_nextConnID := s1_nextConnID s + 1,
        s1_connMap := (s1_connMap s)(s1_nextConnID s + 1 := None)\<rparr>,
      [MapStore (s1_nextConnID s + 1) publicConn,
       CtlWrite ctl (frame_bytes FrameTypeNEW_CONN (s1_nextConnID s + 1) []),
       SockClose publicConn,
       MapDelete (s1_nextConnID s + 1)])"
  using assms
  by (simp add: Server1_handlePublicConnection_def Let_def AddUint32_def EncodeFrame_frame_bytes)

lemma is_frame_frame_bytes:
  assumes "length payload \<le> 2 ^ 32 - 1"
  shows "is_frame ty' connID' (frame_bytes ty connID payload) \<longleftrightarrow> ty' = ty \<and> connID' = connID"
  using DecodeFrame_frame_bytes [OF assms, of ty connID] by (auto simp add: is_frame_def)

lemma new_conn_is_frame:
  "is_frame FrameTypeNEW_CONN connID (frame_bytes FrameTypeNEW_CONN connID [])"
  "\<not> is_frame FrameTypeDATA connID (frame_bytes FrameTypeNEW_CONN connID [])"
  by (simp_all add: is_frame_frame_bytes FrameTypeNEW_CONN_def FrameTypeDATA_def)

lemma Server_stream_ok:
  assumes "clients s clientID = Some ci"
  shows "Server_stream s publicConn clientID True turns =
     [CtlWrite (Conn ci) (frame_bytes FrameTypeNEW_CONN (NextConnID ci + 1) []),
      MapStore (NextConnID ci + 1) publicConn,
      GoForward (NextConnID ci + 1) publicConn]
     @ Server_forward clientID (Conn ci) (NextConnID ci + 1) publicConn turns"
  by (simp add: Server_stream_def assms Server_handlePublicConnection_ok [OF assms] AddUint32_def
      Let_def)

lemma Server_stream_fail:
  assumes "clients s clientID = Some ci"
  shows "Server_stream s publicConn clientID False turns =
     [CtlWrite (Conn ci) (frame_bytes FrameTypeNEW_CONN (NextConnID ci + 1) []),
      SockClose publicConn]"
  by (simp add: Server_stream_def assms Server_handlePublicConnection_fail [OF assms] AddUint32_def
      Let_def)

lemma Server1_stream_ok:
  assumes "s1_controlConn s = Some ctl"
  shows "Server1_stream s publicConn True turns =
     [MapStore (s1_nextConnID s + 1) publicConn,
      CtlWrite ctl (frame_bytes FrameTypeNEW_CONN (s1_nextConnID s + 1) []),
      GoForward (s1_nextConnID s + 1) publicConn]
     @ Server1_forward (s1_nextConnID s + 1) publicConn turns"
  by (simp add: Server1_stream_def Server1_handlePublicConnection_ok [OF assms] AddUint32_def
      Let_def)

lemma Server1_stream_fail:
  assumes "s1_controlConn s = Some ctl"
  shows "Server1_stream s publicConn False turns =
     [MapStore (s1_nextConnID s + 1) publicConn,
      CtlWrite ctl (frame_bytes FrameTypeNEW_CONN (s1_nextConnID s + 1) []),
      SockClose publicConn,
      MapDelete (s1_nextConnID s + 1)]"
  by (simp add: Server1_stream_def Server1_handlePublicConnection_fail [OF assms] AddUint32_def
      Let_def)

lemma Server_opening_order:
  fixes publicConn :: NetConn and r :: "int \<times> error option" and turns :: "turn list"
    and clientID :: string and ds :: "bool list"
  assumes ci: "clients s clientID = Some ci"
  defines "connID \<equiv> NextConnID ci + 1"
  defines "bytes \<equiv> frame_bytes FrameTypeNEW_CONN connID []"
  defines "new_conn \<equiv> CtlWrite (Conn ci) bytes"
  defines "store \<equiv> MapStore connID publicConn"
  defines "go \<equiv> GoForward connID publicConn"
  defines "tr \<equiv> Server_stream s publicConn clientID (returns_nil r) turns"
  shows "only_after (\<lambda>e. e = store) new_conn tr"
    and "only_after (\<lambda>e. e = go) store tr"
    and "only_after (\<lambda>e. e = SockRead publicConn) go tr"
    and "only_after (\<lambda>e. e = SockRead publicConn) store tr"
    and "only_after (is_frame_write FrameTypeDATA connID) new_conn tr"
    and "returns_nil r \<Longrightarrow> store \<in> set tr \<and> go \<in> set tr"
    and "\<not> returns_nil r \<Longrightarrow> tr = [new_conn, SockClose publicConn]"
    and "(returns_nil r \<Longrightarrow> wrote_all r bytes) \<Longrightarrow>
           only_after (is_frame FrameTypeDATA connID) bytes (on_wire tr (wrote_all r bytes # ds))"
proof -
  let ?evs = "[new_conn, store, go]"
  let ?fw = "Server_forward clientID (Conn ci) connID publicConn turns"
  have ok: "tr = ?evs @ ?fw" if "returns_nil r"
    using that Server_stream_ok [OF ci, of publicConn turns]
    by (simp add: tr_def new_conn_def store_def go_def bytes_def connID_def)
  have fail: "tr = [new_conn, SockClose publicConn]" if "\<not> returns_nil r"
    using that Server_stream_fail [OF ci, of publicConn turns]
    by (simp add: tr_def new_conn_def bytes_def connID_def)
  have m1: "new_conn \<in> set ?evs" and m2: "store \<in> set ?evs" and m3: "go \<in> set ?evs"
    by simp_all
  have nd: "\<not> is_frame FrameTypeDATA connID bytes"
    unfolding bytes_def by (rule new_conn_is_frame(2))
  show "only_after (\<lambda>e. e = store) new_conn tr"
    by (cases "returns_nil r")
      (simp_all add: ok fail only_after_prefix [OF m1] only_after_def)
  show "only_after (\<lambda>e. e = go) store tr"
    by (cases "returns_nil r")
      (simp_all add: ok fail only_after_prefix [OF m2] only_after_def
        new_conn_def store_def go_def)
  show "only_after (\<lambda>e. e = SockRead publicConn) go tr"
    by (cases "returns_nil r")
      (simp_all add: ok fail only_after_prefix [OF m3] only_after_def
        new_conn_def store_def go_def)
  show "only_after (\<lambda>e. e = SockRead publicConn) store tr"
    by (cases "returns_nil r")
      (simp_all add: ok fail only_after_prefix [OF m2] only_after_def
        new_conn_def store_def go_def)
  show "only_after (is_frame_write FrameTypeDATA connID) new_conn tr"
    by (cases "returns_nil r")
      (simp_all add: ok fail only_after_prefix [OF m1] only_after_def)
  show "returns_nil r \<Longrightarrow> store \<in> set tr \<and> go \<in> set tr"
    by (simp add: ok)
  show "\<not> returns_nil r \<Longrightarrow> tr = [new_conn, SockClose publicConn]"
    by (rule fail)
  show "only_after (is_frame FrameTypeDATA connID) bytes (on_wire tr (wrote_all r bytes # ds))"
    if w: "returns_nil r \<Longrightarrow> wrote_all r bytes"
  proof (cases "returns_nil r")
    case True
    then show ?thesis
      using w by (simp add: ok new_conn_def store_def go_def only_after_def)
  next
    case False
    then show ?thesis
      using nd by (simp add: fail new_conn_def only_after_def)
  qed
qed

lemma Server1_opening_order:
  fixes publicConn :: NetConn and r :: "int \<times> error option" and turns :: "turn1 list"
    and ds :: "bool list"
  assumes ctl: "s1_controlConn s = Some ctl"
  defines "connID \<equiv> s1_nextConnID s + 1"
  defines "bytes \<equiv> frame_bytes FrameTypeNEW_CONN connID []"
  defines "new_conn \<equiv> CtlWrite ctl bytes"
  defines "store \<equiv> MapStore connID publicConn"
  defines "go \<equiv> GoForward connID publicConn"
  defines "tr \<equiv> Server1_stream s publicConn (returns_nil r) turns"
  shows "only_after (\<lambda>e. e = new_conn) store tr"
    and "store \<in> set tr"
    and "only_after (\<lambda>e. e = go) new_conn tr"
    and "only_after (\<lambda>e. e = go) store tr"
    and "only_after (\<lambda>e. e = SockRead publicConn) go tr"
    and "only_after (\<lambda>e. e = SockRead publicConn) store tr"
    and "only_after (is_frame_write FrameTypeDATA connID) new_conn tr"
    and "returns_nil r \<Longrightarrow> go \<in> set tr"
    and "\<not> returns_nil r \<Longrightarrow> tr = [store, new_conn, SockClose publicConn, MapDelete connID]"
    and "(returns_nil r \<Longrightarrow> wrote_all r bytes) \<Longrightarrow>
           only_after (is_frame FrameTypeDATA connID) bytes (on_wire tr (wrote_all r bytes # ds))"
proof -
  let ?evs = "[store, new_conn, go]"
  let ?fw = "Server1_forward connID publicConn turns"
  have ok: "tr = ?evs @ ?fw" if "returns_nil r"
    using that Server1_stream_ok [OF ctl, of publicConn turns]
    by (simp add: tr_def new_conn_def store_def go_def bytes_def connID_def)
  have fail: "tr = [store, new_conn, SockClose publicConn, MapDelete connID]" if "\<not> returns_nil r"
    using that Server1_stream_fail [OF ctl, of publicConn turns]
    by (simp add: tr_def new_conn_def store_def bytes_def connID_def)
  have m1: "new_conn \<in> set ?evs" and m2: "store \<in> set ?evs" and m3: "go \<in> set ?evs"
    by simp_all
  have nd: "\<not> is_frame FrameTypeDATA connID bytes"
    unfolding bytes_def by (rule new_conn_is_frame(2))
  show "only_after (\<lambda>e. e = new_conn) store tr"
    by (cases "returns_nil r")
      (simp_all add: ok fail only_after_prefix [OF m2] only_after_def)
  show "store \<in> set tr"
    by (cases "returns_nil r") (simp_all add: ok fail)
  show "only_after (\<lambda>e. e = go) new_conn tr"
    by (cases "returns_nil r")
      (simp_all add: ok fail only_after_prefix [OF m1] only_after_def
        new_conn_def store_def go_def)
  show "only_after (\<lambda>e. e = go) store tr"
    by (cases "returns_nil r")
      (simp_all add: ok fail only_after_prefix [OF m2] only_after_def
        new_conn_def store_def go_def)
  show "only_after (\<lambda>e. e = SockRead publicConn) go tr"
    by (cases "returns_nil r")
      (simp_all add: ok fail only_after_prefix [OF m3] only_after_def
        new_conn_def store_def go_def)
  show "only_after (\<lambda>e. e = SockRead publicConn) store tr"
    by (cases "returns_nil r")
      (simp_all add: ok fail only_after_prefix [OF m2] only_after_def
        new_conn_def store_def go_def)
  show "only_after (is_frame_write FrameTypeDATA connID) new_conn tr"
    by (cases "returns_nil r")
      (simp_all add: ok fail only_after_prefix [OF m1] only_after_def
        new_conn_def store_def go_def)
  show "returns_nil r \<Longrightarrow> go \<in> set tr"
    by (simp add: ok)
  show "\<not> returns_nil r \<Longrightarrow> tr = [store, new_conn, SockClose publicConn, MapDelete connID]"
    by (rule fail)
  show "only_after (is_frame FrameTypeDATA connID) bytes (on_wire tr (wrote_all r bytes # ds))"
    if w: "returns_nil r \<Longrightarrow> wrote_all r bytes"
  proof (cases "returns_nil r")
    case True
    then show ?thesis
      using w by (simp add: ok new_conn_def store_def go_def only_after_def)
  next
    case False
    then show ?thesis
      using nd by (simp add: fail new_conn_def store_def only_after_def)
  qed
qed


text \<open>
  C5 (as amended). For every external socket accepted for a client session, with \<open>r\<close>
  what the \<open>Write\<close> of the NEW_CONN frame returns. The server with many clients writes the
  NEW_CONN frame first and inserts the socket into the session's stream map after it, when
  the write returned no error (when it returned one, the socket is closed and is never
  inserted); the server with one client inserts the socket first and writes the NEW_CONN
  frame second (when the write returned an error, it closes the socket and removes it
  again). In both, the socket is inserted before the forwarding task is started and the
  task is started before the first read from the socket, so the socket is in the map
  before the server performs its first read from it; and the server writes no DATA frame
  for the stream before the NEW_CONN frame. Hence on the wire NEW_CONN for a stream
  precedes any DATA frame for that stream, on a control connection whose \<open>Write\<close> has sent
  the whole buffer whenever it returns no error.
\<close>

theorem stream_opening_order:
  "(clients s clientID = Some ci \<longrightarrow>
      (let connID = NextConnID ci + 1;
           bytes = frame_bytes FrameTypeNEW_CONN connID [];
           new_conn = CtlWrite (Conn ci) bytes;
           store = MapStore connID publicConn;
           go = GoForward connID publicConn;
           tr = Server_stream s publicConn clientID (returns_nil r) turns;
           s' = fst (Server_handlePublicConnection s publicConn clientID (returns_nil r))
       in is_frame FrameTypeNEW_CONN connID bytes
          \<and> only_after (\<lambda>e. e = store) new_conn tr
          \<and> only_after (\<lambda>e. e = go) store tr
          \<and> only_after (\<lambda>e. e = SockRead publicConn) go tr
          \<and> only_after (\<lambda>e. e = SockRead publicConn) store tr
          \<and> only_after (is_frame_write FrameTypeDATA connID) new_conn tr
          \<and> (returns_nil r \<longrightarrow>
                store \<in> set tr \<and> go \<in> set tr
                \<and> (\<exists>ci'. clients s' clientID = Some ci' \<and> ConnMap ci' connID = Some publicConn))
          \<and> (\<not> returns_nil r \<longrightarrow>
                tr = [new_conn, SockClose publicConn]
                \<and> (\<exists>ci'. clients s' clientID = Some ci' \<and> ConnMap ci' = ConnMap ci))
          \<and> ((returns_nil r \<longrightarrow> wrote_all r bytes) \<longrightarrow>
                only_after (is_frame FrameTypeDATA connID) bytes
                  (on_wire tr (wrote_all r bytes # ds)))))
   \<and> (s1_controlConn s1 = Some ctl \<longrightarrow>
      (let connID = s1_nextConnID s1 + 1;
           bytes = frame_bytes FrameTypeNEW_CONN connID [];
           new_conn = CtlWrite ctl bytes;
           store = MapStore connID publicConn;
           go = GoForward connID publicConn;
           tr = Server1_stream s1 publicConn (returns_nil r) turns1;
           s1' = fst (Server1_handlePublicConnection s1 publicConn (returns_nil r))
       in is_frame FrameTypeNEW_CONN connID bytes
          \<and> store \<in> set tr
          \<and> only_after (\<lambda>e. e = new_conn) store tr
          \<and> only_after (\<lambda>e. e = go) new_conn tr
          \<and> only_after (\<lambda>e. e = go) store tr
          \<and> only_after (\<lambda>e. e = SockRead publicConn) go tr
          \<and> only_after (\<lambda>e. e = SockRead publicConn) store tr
          \<and> only_after (is_frame_write FrameTypeDATA connID) new_conn tr
          \<and> (returns_nil r \<longrightarrow> go \<in> set tr \<and> s1_connMap s1' connID = Some publicConn)
          \<and> (\<not> returns_nil r \<longrightarrow>
                tr = [store, new_conn, SockClose publicConn, MapDelete connID]
                \<and> s1_connMap s1' connID = None)
          \<and> ((returns_nil r \<longrightarrow> wrote_all r bytes) \<longrightarrow>
                only_after (is_frame FrameTypeDATA connID) bytes
                  (on_wire tr (wrote_all r bytes # ds)))))"
proof (intro conjI impI)
  assume ci: "clients s clientID = Some ci"
  note o = Server_opening_order [OF ci]
  have st: "returns_nil r \<Longrightarrow>
      \<exists>ci'. clients (fst (Server_handlePublicConnection s publicConn clientID (returns_nil r))) clientID
               = Some ci' \<and> ConnMap ci' (NextConnID ci + 1) = Some publicConn"
    by (simp add: Server_handlePublicConnection_ok [OF ci])
  have sf: "\<not> returns_nil r \<Longrightarrow>
      \<exists>ci'. clients (fst (Server_handlePublicConnection s publicConn clientID (returns_nil r))) clientID
               = Some ci' \<and> ConnMap ci' = ConnMap ci"
    by (simp add: Server_handlePublicConnection_fail [OF ci])
  show "let connID = NextConnID ci + 1;
           bytes = frame_bytes FrameTypeNEW_CONN connID [];
           new_conn = CtlWrite (Conn ci) bytes;
           store = MapStore connID publicConn;
           go = GoForward connID publicConn;
           tr = Server_stream s publicConn clientID (returns_nil r) turns;
           s' = fst (Server_handlePublicConnection s publicConn clientID (returns_nil r))
       in is_frame FrameTypeNEW_CONN connID bytes
          \<and> only_after (\<lambda>e. e = store) new_conn tr
          \<and> only_after (\<lambda>e. e = go) store tr
          \<and> only_after (\<lambda>e. e = SockRead publicConn) go tr
          \<and> only_after (\<lambda>e. e = SockRead publicConn) store tr
          \<and> only_after (is_frame_write FrameTypeDATA connID) new_conn tr
          \<and> (returns_nil r \<longrightarrow>
                store \<in> set tr \<and> go \<in> set tr
                \<and> (\<exists>ci'. clients s' clientID = Some ci' \<and> ConnMap ci' connID = Some publicConn))
          \<and> (\<not> returns_nil r \<longrightarrow>
                tr = [new_conn, SockClose publicConn]
                \<and> (\<exists>ci'. clients s' clientID = Some ci' \<and> ConnMap ci' = ConnMap ci))
          \<and> ((returns_nil r \<longrightarrow> wrote_all r bytes) \<longrightarrow>
                only_after (is_frame FrameTypeDATA connID) bytes
                  (on_wire tr (wrote_all r bytes # ds)))"
    unfolding Let_def
    apply (intro conjI impI)
    subgoal by (rule new_conn_is_frame(1))
    subgoal by (rule o(1))
    subgoal by (rule o(2))
    subgoal by (rule o(3))
    subgoal by (rule o(4))
    subgoal by (rule o(5))
    subgoal using o(6) by simp
    subgoal using o(6) by simp
    subgoal by (rule st)
    subgoal by (rule o(7))
    subgoal by (rule sf)
    subgoal premises p by (rule o(8)) (use p in simp)
    done
next
  assume ctl: "s1_controlConn s1 = Some ctl"
  note o = Server1_opening_order [OF ctl]
  have st: "returns_nil r \<Longrightarrow>
      s1_connMap (fst (Server1_handlePublicConnection s1 publicConn (returns_nil r)))
        (s1_nextConnID s1 + 1) = Some publicConn"
    by (simp add: Server1_handlePublicConnection_ok [OF ctl])
  have sf: "\<not> returns_nil r \<Longrightarrow>
      s1_connMap (fst (Server1_handlePublicConnection s1 publicConn (returns_nil r)))
        (s1_nextConnID s1 + 1) = None"
    by (simp add: Server1_handlePublicConnection_fail [OF ctl])
  show "let connID = s1_nextConnID s1 + 1;
           bytes = frame_bytes FrameTypeNEW_CONN connID [];
           new_conn = CtlWrite ctl bytes;
           store = MapStore connID publicConn;
           go = GoForward connID publicConn;
           tr = Server1_stream s1 publicConn (returns_nil r) turns1;
           s1' = fst (Server1_handlePublicConnection s1 publicConn (returns_nil r))
       in is_frame FrameTypeNEW_CONN connID bytes
          \<and> store \<in> set tr
          \<and> only_after (\<lambda>e. e = new_conn) store tr
          \<and> only_after (\<lambda>e. e = go) new_conn tr
          \<and> only_after (\<lambda>e. e = go) store tr
          \<and> only_after (\<lambda>e. e = SockRead publicConn) go tr
          \<and> only_after (\<lambda>e. e = SockRead publicConn) store tr
          \<and> only_after (is_frame_write FrameTypeDATA connID) new_conn tr
          \<and> (returns_nil r \<longrightarrow> go \<in> set tr \<and> s1_connMap s1' connID = Some publicConn)
          \<and> (\<not> returns_nil r \<longrightarrow>
                tr = [store, new_conn, SockClose publicConn, MapDelete connID]
                \<and> s1_connMap s1' connID = None)
          \<and> ((returns_nil r \<longrightarrow> wrote_all r bytes) \<longrightarrow>
                only_after (is_frame FrameTypeDATA connID) bytes
                  (on_wire tr (wrote_all r bytes # ds)))"
    unfolding Let_def
    apply (intro conjI impI)
    subgoal by (rule new_conn_is_frame(1))
    subgoal by (rule o(2))
    subgoal by (rule o(1))
    subgoal by (rule o(3))
    subgoal by (rule o(4))
    subgoal by (rule o(5))
    subgoal by (rule o(6))
    subgoal by (rule o(7))
    subgoal by (rule o(8))
    subgoal by (rule st)
    subgoal by (rule o(9))
    subgoal by (rule sf)
    subgoal premises p by (rule o(10)) (use p in simp)
    done
qed

theorem stream_opening_order_witness:
  "clients (snd (registerClient NewServer 5)) ''client-1''
     = Some \<lparr>ID = ''client-1'', Conn = 5, ConnMap = Map.empty, NextConnID = 0,
              ClientLocalAddr = [], ClientRemotePort = 0, PublicListener = None\<rparr>
   \<and> returns_nil (9, None)
   \<and> wrote_all (9, None) [1, 0, 0, 0, 1, 0, 0, 0, 0]
   \<and> Server_stream (snd (registerClient NewServer 5)) 7 ''client-1'' (returns_nil (9, None))
        [\<lparr>ctxDone = False, inMapBefore = True, readResult = Inr [104, 105], inMapAfter = True,
          writeOk = True, registry = snd (registerClient NewServer 5), inMapAtExit = True\<rparr>,
         \<lparr>ctxDone = False, inMapBefore = True, readResult = Inl EOF, inMapAfter = True,
          writeOk = True, registry = snd (registerClient NewServer 5), inMapAtExit = True\<rparr>]
     = [CtlWrite 5 [1, 0, 0, 0, 1, 0, 0, 0, 0], MapStore 1 7, GoForward 1 7,
        SockRead 7, CtlWrite 5 [2, 0, 0, 0, 1, 0, 0, 0, 2, 104, 105],
        SockRead 7, CtlWrite 5 [3, 0, 0, 0, 1, 0, 0, 0, 0], SockClose 7, MapDelete 1]
   \<and> only_after (\<lambda>e. e = MapStore 1 7) (CtlWrite 5 [1, 0, 0, 0, 1, 0, 0, 0, 0])
        (Server_stream (snd (registerClient NewServer 5)) 7 ''client-1'' (returns_nil (9, None))
          [\<lparr>ctxDone = False, inMapBefore = True, readResult = Inr [104, 105], inMapAfter = True,
            writeOk = True, registry = snd (registerClient NewServer 5), inMapAtExit = True\<rparr>,
           \<lparr>ctxDone = False, inMapBefore = True, readResult = Inl EOF, inMapAfter = True,
            writeOk = True, registry = snd (registerClient NewServer 5), inMapAtExit = True\<rparr>])
   \<and> only_after (\<lambda>e. e = GoForward 1 7) (MapStore 1 7)
        (Server_stream (snd (registerClient NewServer 5)) 7 ''client-1'' (returns_nil (9, None))
          [\<lparr>ctxDone = False, inMapBefore = True, readResult = Inr [104, 105], inMapAfter = True,
            writeOk = True, registry = snd (registerClient NewServer 5), inMapAtExit = True\<rparr>,
           \<lparr>ctxDone = False, inMapBefore = True, readResult = Inl EOF, inMapAfter = True,
            writeOk = True, registry = snd (registerClient NewServer 5), inMapAtExit = True\<rparr>])
   \<and> only_after (\<lambda>e. e = SockRead 7) (GoForward 1 7)
        (Server_stream (snd (registerClient NewServer 5)) 7 ''client-1'' (returns_nil (9, None))
          [\<lparr>ctxDone = False, inMapBefore = True, readResult = Inr [104, 105], inMapAfter = True,
            writeOk = True, registry = snd (registerClient NewServer 5), inMapAtExit = True\<rparr>,
           \<lparr>ctxDone = False, inMapBefore = True, readResult = Inl EOF, inMapAfter = True,
            writeOk = True, registry = snd (registerClient NewServer 5), inMapAtExit = True\<rparr>])
   \<and> only_after (is_frame FrameTypeDATA 1) [1, 0, 0, 0, 1, 0, 0, 0, 0]
        (on_wire
          (Server_stream (snd (registerClient NewServer 5)) 7 ''client-1'' (returns_nil (9, None))
            [\<lparr>ctxDone = False, inMapBefore = True, readResult = Inr [104, 105], inMapAfter = True,
              writeOk = True, registry = snd (registerClient NewServer 5), inMapAtExit = True\<rparr>,
             \<lparr>ctxDone = False, inMapBefore = True, readResult = Inl EOF, inMapAfter = True,
              writeOk = True, registry = snd (registerClient NewServer 5), inMapAtExit = True\<rparr>])
          (wrote_all (9, None) [1, 0, 0, 0, 1, 0, 0, 0, 0] # [True, True]))
   \<and> s1_controlConn \<lparr>s1_controlConn = Some 5, s1_connMap = Map.empty, s1_nextConnID = 0\<rparr> = Some 5
   \<and> Server1_stream \<lparr>s1_controlConn = Some 5, s1_connMap = Map.empty, s1_nextConnID = 0\<rparr> 7
        (returns_nil (9, None))
        [\<lparr>ctxDone1 = False, readResult1 = Inl EOF, controlNow = Some 5, writeOk1 = True\<rparr>]
     = [MapStore 1 7, CtlWrite 5 [1, 0, 0, 0, 1, 0, 0, 0, 0], GoForward 1 7,
        SockRead 7, CtlWrite 5 [3, 0, 0, 0, 1, 0, 0, 0, 0], SockClose 7, MapDelete 1]
   \<and> only_after (\<lambda>e. e = CtlWrite 5 [1, 0, 0, 0, 1, 0, 0, 0, 0]) (MapStore 1 7)
        (Server1_stream \<lparr>s1_controlConn = Some 5, s1_connMap = Map.empty, s1_nextConnID = 0\<rparr> 7
          (returns_nil (9, None))
          [\<lparr>ctxDone1 = False, readResult1 = Inl EOF, controlNow = Some 5, writeOk1 = True\<rparr>])
   \<and> only_after (\<lambda>e. e = SockRead 7) (MapStore 1 7)
        (Server1_stream \<lparr>s1_controlConn = Some 5, s1_connMap = Map.empty, s1_nextConnID = 0\<rparr> 7
          (returns_nil (9, None))
          [\<lparr>ctxDone1 = False, readResult1 = Inl EOF, controlNow = Some 5, writeOk1 = True\<rparr>])"
proof -
  let ?S = "snd (registerClient NewServer 5)"
  let ?CI = "\<lparr>ID = ''client-1'', Conn = 5, ConnMap = Map.empty, NextConnID = 0,
              ClientLocalAddr = [], ClientRemotePort = 0, PublicListener = None\<rparr>"
  let ?T = "[\<lparr>ctxDone = False, inMapBefore = True, readResult = Inr [104, 105], inMapAfter = True,
          writeOk = True, registry = ?S, inMapAtExit = True\<rparr>,
         \<lparr>ctxDone = False, inMapBefore = True, readResult = Inl EOF, inMapAfter = True,
          writeOk = True, registry = ?S, inMapAtExit = True\<rparr>]"
  let ?S1 = "\<lparr>s1_controlConn = Some 5, s1_connMap = Map.empty, s1_nextConnID = 0\<rparr>"
  let ?T1 = "[\<lparr>ctxDone1 = False, readResult1 = Inl EOF, controlNow = Some 5, writeOk1 = True\<rparr>]"
  let ?r = "(9, None) :: int \<times> error option"
  have d1: "digits10 (Suc 0) = ''1''"
    by code_simp
  have reg: "clients ?S ''client-1'' = Some ?CI"
    by (simp add: registerClient_def NewServer_def AddUint32_def Let_def d1)
  have ctl: "s1_controlConn ?S1 = Some 5" by simp
  have nc: "frame_bytes FrameTypeNEW_CONN 1 [] = [1, 0, 0, 0, 1, 0, 0, 0, 0]"
    by (simp add: frame_bytes_eq be32_def FrameTypeNEW_CONN_def)
  have cl: "frame_bytes FrameTypeCLOSE 1 [] = [3, 0, 0, 0, 1, 0, 0, 0, 0]"
    by (simp add: frame_bytes_eq be32_def FrameTypeCLOSE_def)
  have da: "frame_bytes FrameTypeDATA 1 [104, 105] = [2, 0, 0, 0, 1, 0, 0, 0, 2, 104, 105]"
    by (simp add: frame_bytes_eq be32_def FrameTypeDATA_def)
  have rn: "returns_nil ?r" by (simp add: returns_nil_def)
  have wa: "wrote_all ?r [1, 0, 0, 0, 1, 0, 0, 0, 0]" by (simp add: wrote_all_def)
  have tr: "Server_stream ?S 7 ''client-1'' (returns_nil ?r) ?T
     = [CtlWrite 5 [1, 0, 0, 0, 1, 0, 0, 0, 0], MapStore 1 7, GoForward 1 7,
        SockRead 7, CtlWrite 5 [2, 0, 0, 0, 1, 0, 0, 0, 2, 104, 105],
        SockRead 7, CtlWrite 5 [3, 0, 0, 0, 1, 0, 0, 0, 0], SockClose 7, MapDelete 1]"
    unfolding eqTrueI [OF rn]
    by (simp add: Server_stream_def reg Server_handlePublicConnection_ok [OF reg] AddUint32_def
        Let_def EncodeFrame_frame_bytes nc cl da Server_sendCloseFrame_def write_close_Some
        Server_forward_exit_def)
  have tr1: "Server1_stream ?S1 7 (returns_nil ?r) ?T1
     = [MapStore 1 7, CtlWrite 5 [1, 0, 0, 0, 1, 0, 0, 0, 0], GoForward 1 7,
        SockRead 7, CtlWrite 5 [3, 0, 0, 0, 1, 0, 0, 0, 0], SockClose 7, MapDelete 1]"
    unfolding eqTrueI [OF rn]
    by (simp add: Server1_stream_def Server1_handlePublicConnection_ok [OF ctl] AddUint32_def
        Let_def nc cl write_close_Some)
  note t = stream_opening_order [of ?S "''client-1''" ?CI 7 ?r ?T "[True, True]" ?S1 5 ?T1]
  from t reg ctl rn wa have ord:
    "only_after (\<lambda>e. e = MapStore 1 7) (CtlWrite 5 [1, 0, 0, 0, 1, 0, 0, 0, 0])
        (Server_stream ?S 7 ''client-1'' (returns_nil ?r) ?T)"
    "only_after (\<lambda>e. e = GoForward 1 7) (MapStore 1 7)
        (Server_stream ?S 7 ''client-1'' (returns_nil ?r) ?T)"
    "only_after (\<lambda>e. e = SockRead 7) (GoForward 1 7)
        (Server_stream ?S 7 ''client-1'' (returns_nil ?r) ?T)"
    "only_after (is_frame FrameTypeDATA 1) [1, 0, 0, 0, 1, 0, 0, 0, 0]
        (on_wire (Server_stream ?S 7 ''client-1'' (returns_nil ?r) ?T)
          (wrote_all ?r [1, 0, 0, 0, 1, 0, 0, 0, 0] # [True, True]))"
    "only_after (\<lambda>e. e = CtlWrite 5 [1, 0, 0, 0, 1, 0, 0, 0, 0]) (MapStore 1 7)
        (Server1_stream ?S1 7 (returns_nil ?r) ?T1)"
    "only_after (\<lambda>e. e = SockRead 7) (MapStore 1 7)
        (Server1_stream ?S1 7 (returns_nil ?r) ?T1)"
    by (simp_all add: Let_def nc del: registerClient_def)
  show ?thesis
    using reg ctl rn wa tr tr1 ord by (intro conjI)
qed

text \<open>
  The statement as the specification words it does not hold. The server with one client
  inserts the socket first and writes NEW_CONN second. When the write of NEW_CONN returns an
  error, the server with many clients never inserts the socket. And when the control
  connection is a \<open>PQCConn\<close> whose \<open>Write\<close> of the NEW_CONN frame meets want-write, the call
  returns \<open>(0, nil)\<close> with nothing sent, the handler goes on, and the first frame of the
  stream on the wire is a DATA frame.
\<close>

theorem stream_store_order_counterexample:
  "snd (Server1_handlePublicConnection
          \<lparr>s1_controlConn = Some 1, s1_connMap = Map.empty, s1_nextConnID = 0\<rparr> 7 True)
     = [MapStore 1 7, CtlWrite 1 [1, 0, 0, 0, 1, 0, 0, 0, 0], GoForward 1 7]
   \<and> \<not> returns_nil (0, Some (ErrorString ''write: broken pipe''))
   \<and> Server_stream (snd (registerClient NewServer 5)) 7 ''client-1''
        (returns_nil (0, Some (ErrorString ''write: broken pipe'')))
        [\<lparr>ctxDone = False, inMapBefore = True, readResult = Inr [104, 105], inMapAfter = True,
          writeOk = True, registry = snd (registerClient NewServer 5), inMapAtExit = True\<rparr>]
     = [CtlWrite 5 [1, 0, 0, 0, 1, 0, 0, 0, 0], SockClose 7]
   \<and> PQCConn_Write \<lparr>conn = 5,
        ssl = Some \<lparr>negotiated_group = 1454, group_name = Some ''MLKEM768''\<rparr>, ctx = 1\<rparr>
        9 (- 1) SSL_ERROR_WANT_WRITE = (0, None)
   \<and> returns_nil (0, None)
   \<and> \<not> wrote_all (0, None) [1, 0, 0, 0, 1, 0, 0, 0, 0]
   \<and> on_wire
        (Server_stream (snd (registerClient NewServer 5)) 7 ''client-1'' (returns_nil (0, None))
          [\<lparr>ctxDone = False, inMapBefore = True, readResult = Inr [104, 105], inMapAfter = True,
            writeOk = True, registry = snd (registerClient NewServer 5), inMapAtExit = True\<rparr>])
        (wrote_all (0, None) [1, 0, 0, 0, 1, 0, 0, 0, 0] # [True])
     = [[2, 0, 0, 0, 1, 0, 0, 0, 2, 104, 105]]
   \<and> is_frame FrameTypeDATA 1 [2, 0, 0, 0, 1, 0, 0, 0, 2, 104, 105]"
proof -
  let ?S = "snd (registerClient NewServer 5)"
  let ?CI = "\<lparr>ID = ''client-1'', Conn = 5, ConnMap = Map.empty, NextConnID = 0,
              ClientLocalAddr = [], ClientRemotePort = 0, PublicListener = None\<rparr>"
  let ?T = "[\<lparr>ctxDone = False, inMapBefore = True, readResult = Inr [104, 105], inMapAfter = True,
          writeOk = True, registry = ?S, inMapAtExit = True\<rparr>]"
  have d1: "digits10 (Suc 0) = ''1''"
    by code_simp
  have reg: "clients ?S ''client-1'' = Some ?CI"
    by (simp add: registerClient_def NewServer_def AddUint32_def Let_def d1)
  have nc: "frame_bytes FrameTypeNEW_CONN 1 [] = [1, 0, 0, 0, 1, 0, 0, 0, 0]"
    by (simp add: frame_bytes_eq be32_def FrameTypeNEW_CONN_def)
  have da: "frame_bytes FrameTypeDATA 1 [104, 105] = [2, 0, 0, 0, 1, 0, 0, 0, 2, 104, 105]"
    by (simp add: frame_bytes_eq be32_def FrameTypeDATA_def)
  have one: "snd (Server1_handlePublicConnection
          \<lparr>s1_controlConn = Some 1, s1_connMap = Map.empty, s1_nextConnID = 0\<rparr> 7 True)
     = [MapStore 1 7, CtlWrite 1 [1, 0, 0, 0, 1, 0, 0, 0, 0], GoForward 1 7]"
    by (simp add: Server1_handlePublicConnection_def Let_def AddUint32_def EncodeFrame_bytes
        be32_def FrameTypeNEW_CONN_def)
  have e: "\<not> returns_nil (0, Some (ErrorString ''write: broken pipe''))"
    by (simp add: returns_nil_def)
  have two: "Server_stream ?S 7 ''client-1''
        (returns_nil (0, Some (ErrorString ''write: broken pipe''))) ?T
     = [CtlWrite 5 [1, 0, 0, 0, 1, 0, 0, 0, 0], SockClose 7]"
    unfolding eq_False [THEN iffD2, OF e]
    using Server_stream_fail [OF reg, of 7 ?T] by (simp add: nc del: registerClient_def)
  have w: "PQCConn_Write \<lparr>conn = 5,
        ssl = Some \<lparr>negotiated_group = 1454, group_name = Some ''MLKEM768''\<rparr>, ctx = 1\<rparr>
        9 (- 1) SSL_ERROR_WANT_WRITE = (0, None)"
    by (simp add: PQCConn_Write_def SSL_ERROR_WANT_WRITE_def SSL_ERROR_ZERO_RETURN_def)
  have rn: "returns_nil (0, None)" by (simp add: returns_nil_def)
  have nw: "\<not> wrote_all (0, None) [1, 0, 0, 0, 1, 0, 0, 0, 0]" by (simp add: wrote_all_def)
  have tr: "Server_stream ?S 7 ''client-1'' (returns_nil (0, None)) ?T
     = [CtlWrite 5 [1, 0, 0, 0, 1, 0, 0, 0, 0], MapStore 1 7, GoForward 1 7,
        SockRead 7, CtlWrite 5 [2, 0, 0, 0, 1, 0, 0, 0, 2, 104, 105]]"
    unfolding eqTrueI [OF rn]
    using Server_stream_ok [OF reg, of 7 ?T]
    by (simp add: nc da EncodeFrame_frame_bytes del: registerClient_def)
  have three: "on_wire (Server_stream ?S 7 ''client-1'' (returns_nil (0, None)) ?T)
        (wrote_all (0, None) [1, 0, 0, 0, 1, 0, 0, 0, 0] # [True])
     = [[2, 0, 0, 0, 1, 0, 0, 0, 2, 104, 105]]"
    unfolding tr eq_False [THEN iffD2, OF nw] by simp
  have four: "is_frame FrameTypeDATA 1 [2, 0, 0, 0, 1, 0, 0, 0, 2, 104, 105]"
    using is_frame_frame_bytes [of "[104, 105]" FrameTypeDATA 1 FrameTypeDATA 1]
    by (simp add: da)
  show ?thesis
    using one e two w rn nw three four by (intro conjI)
qed

end
